theory Spec2Isabelle
  imports Complex_Main "HOL-Library.Monad_Syntax" "HOL-Library.Sublist" "HOL-Library.Word"
begin

section \<open>The AHP cross-correlator driver: data\<close>

text \<open>
  The driver keeps its state in the fields of the class \<open>AHP_XC\<close>. The embedding keeps
  the fields the correlation and delay engine reads and writes, under the names of the
  source. A C \<open>double\<close> is modelled by a \<open>real\<close> (exact arithmetic: rounding, infinities
  and NaN are not modelled); a C array is a list whose length is the allocated element
  count, and every indexed access is checked: an access outside the list makes the
  operation return \<open>None\<close>, which stands for the undefined behaviour of the C program.
\<close>

type_synonym vec3 = "real \<times> real \<times> real"

fun vadd :: "vec3 \<Rightarrow> vec3 \<Rightarrow> vec3" where
  "vadd (a, b, c) (d, e, f) = (a + d, b + e, c + f)"

fun vsub :: "vec3 \<Rightarrow> vec3 \<Rightarrow> vec3" where
  "vsub (a, b, c) (d, e, f) = (a - d, b - e, c - f)"

fun vdiv :: "vec3 \<Rightarrow> real \<Rightarrow> vec3" where
  "vdiv (a, b, c) k = (a / k, b / k, c / k)"

fun vnorm :: "vec3 \<Rightarrow> real" where
  "vnorm (a, b, c) = sqrt (a ^ 2 + b ^ 2 + c ^ 2)"

text \<open>A \<open>struct timeval\<close>: seconds and microseconds.\<close>

record timeval =
  tv_sec :: int
  tv_usec :: int

text \<open>
  A \<open>dsp_stream\<close> of the DSP library: the sizes of its dimensions, the number of
  elements \<open>len\<close> (the product of the sizes) and the sample buffer. A cell of the
  buffer that was allocated and never written holds \<open>None\<close>.
\<close>

record dsp_stream =
  sizes :: "int list"
  len :: int
  buf :: "real option list"

text \<open>An \<open>IBLOB\<close> output slot: where its data starts in the staging block (\<open>None\<close> is the
  null pointer of a slot that was never set) and the length in bytes.\<close>

record IBLOB =
  blob :: "nat option"
  bloblen :: int

text \<open>One correlation value of a packet, and one lag vector (\<open>ahp_xc_sample\<close>).\<close>

record ahp_xc_correlation =
  counts :: real
  magnitude :: real

record ahp_xc_sample =
  lag_size :: nat
  correlations :: "ahp_xc_correlation list"

record ahp_xc_packet =
  pkt_counts :: "real list"
  autocorrelations :: "ahp_xc_sample list"
  crosscorrelations :: "ahp_xc_sample list"

text \<open>The commands the driver sends to the correlator, with the arguments of the call.\<close>

datatype xc_cmd =
  Set_channel_auto nat "32 word" nat nat
| Set_channel_cross nat "32 word" nat nat

record AHP_XC =
  InIntegration :: bool
  IntegrationRequest :: real
  ExpStart :: timeval
  timeleft :: real
  lineEnable :: "bool list"
  lineLocation :: "vec3 list"
  center :: "vec3 list"
  delay :: "real list"
  baselines :: "vec3 list"
  autocorrelations_str :: "dsp_stream list"
  crosscorrelations_str :: "dsp_stream list"
  plot_str :: "dsp_stream list"
  autocorrelationsB :: "IBLOB list"
  crosscorrelationsB :: "IBLOB list"
  plotB :: "IBLOB list"
  totalcounts :: "real list"
  totalcorrelations :: "ahp_xc_correlation list"
  hw :: "xc_cmd list"
  Altitude :: real
  Azimuth :: real

text \<open>
  What one pass of the reader loop takes from outside the class: the values the
  correlator reports (\<open>ahp_xc_get_nlines\<close> and its siblings), the clock, the altitude
  and azimuth the astronomy library computes for the target at that moment and the unit
  vector of that sky direction, the projected coordinates of each baseline and the
  outcome of the FITS library's calls on a stream.
\<close>

record fits_io =
  malloc_ok :: bool
  create_memfile_status :: int
  create_img_status :: int
  write_img_status :: int
  memfile_size :: nat

record xc_env =
  nlines :: nat
  nbaselines :: nat
  autocorrelator_lagsize :: nat
  crosscorrelator_lagsize :: nat
  delaysize :: "32 word"
  frequency :: real
  now :: timeval
  alt_az :: "real \<times> real"
  direction :: vec3
  uvcoord :: "nat \<Rightarrow> real \<times> real"
  cfitsio :: "dsp_stream \<Rightarrow> fits_io"

definition nplots :: nat where
  "nplots = 1"

definition LIGHTSPEED :: real where
  "LIGHTSPEED = 299792458"

section \<open>Checked array access\<close>

definition nth_opt :: "'a list \<Rightarrow> nat \<Rightarrow> 'a option" where
  "nth_opt xs i = (if i < length xs then Some (xs ! i) else None)"

definition nth_int :: "'a list \<Rightarrow> int \<Rightarrow> 'a option" where
  "nth_int xs i = (if 0 \<le> i then nth_opt xs (nat i) else None)"

definition upd_opt :: "'a list \<Rightarrow> nat \<Rightarrow> 'a \<Rightarrow> 'a list option" where
  "upd_opt xs i v = (if i < length xs then Some (xs[i := v]) else None)"

text \<open>A \<open>for\<close> loop over a list of indices whose body may fail.\<close>

fun foldM :: "('a \<Rightarrow> 's \<Rightarrow> 's option) \<Rightarrow> 'a list \<Rightarrow> 's \<Rightarrow> 's option" where
  "foldM f [] s = Some s"
| "foldM f (x # xs) s = (case f x s of None \<Rightarrow> None | Some s' \<Rightarrow> foldM f xs s')"

section \<open>Starting and aborting an integration\<close>

definition StartIntegration :: "xc_env \<Rightarrow> real \<Rightarrow> AHP_XC \<Rightarrow> bool \<times> AHP_XC" where
  "StartIntegration env duration st =
     (if InIntegration st then (False, st)
      else (True, st\<lparr>IntegrationRequest := duration, ExpStart := now env, InIntegration := True\<rparr>))"

definition AbortIntegration :: "AHP_XC \<Rightarrow> bool \<times> AHP_XC" where
  "AbortIntegration st = (True, st\<lparr>InIntegration := False\<rparr>)"

definition CalcTimeLeft :: "xc_env \<Rightarrow> AHP_XC \<Rightarrow> real" where
  "CalcTimeLeft env st =
     (let timesince =
            (real_of_int (tv_sec (now env)) * 1000 + real_of_int (tv_usec (now env) div 1000))
            - (real_of_int (tv_sec (ExpStart st)) * 1000 + real_of_int (tv_usec (ExpStart st) div 1000));
          timesince = timesince / 1000
      in IntegrationRequest st - timesince)"

section \<open>The stream operations of the DSP library\<close>

text \<open>
  The driver builds and resizes its buffers through the DSP library. A new stream has no
  dimension and \<open>len = 1\<close>; \<open>dsp_stream_add_dim\<close> appends a dimension and multiplies
  \<open>len\<close> by its size; \<open>dsp_stream_set_dim\<close> changes the size of an existing dimension
  and recomputes \<open>len\<close>; \<open>dsp_stream_alloc_buffer\<close> reallocates the buffer to the given
  number of samples: the samples that fit are kept and new cells are unwritten.
  \<open>dsp_buffer_set\<close> writes one value into the first cells of a buffer.
\<close>

definition dsp_stream_new :: dsp_stream where
  "dsp_stream_new = \<lparr>sizes = [], len = 1, buf = []\<rparr>"

definition dsp_stream_add_dim :: "dsp_stream \<Rightarrow> int \<Rightarrow> dsp_stream" where
  "dsp_stream_add_dim s n = s\<lparr>sizes := sizes s @ [n], len := len s * n\<rparr>"

definition dsp_stream_set_dim :: "dsp_stream \<Rightarrow> nat \<Rightarrow> int \<Rightarrow> dsp_stream" where
  "dsp_stream_set_dim s d n =
     (if d < length (sizes s)
      then s\<lparr>sizes := (sizes s)[d := n], len := prod_list ((sizes s)[d := n])\<rparr>
      else s)"

definition realloc :: "real option list \<Rightarrow> int \<Rightarrow> real option list" where
  "realloc b n = take (nat n) b @ replicate (nat n - length b) None"

definition dsp_stream_alloc_buffer :: "dsp_stream \<Rightarrow> int \<Rightarrow> dsp_stream" where
  "dsp_stream_alloc_buffer s n = s\<lparr>buf := realloc (buf s) n\<rparr>"

definition dsp_buffer_set :: "real option list \<Rightarrow> int \<Rightarrow> real \<Rightarrow> real option list option" where
  "dsp_buffer_set b n v =
     (if nat n \<le> length b then Some (replicate (nat n) (Some v) @ drop (nat n) b) else None)"

section \<open>Delay compensation\<close>

text \<open>Modelled from the spec: \<open>baseline_delay\<close> belongs to the device framework and is not
  part of the source. The specification gives its contract: the projection of the
  baseline vector onto the unit vector of the sky direction. The first argument is that
  unit vector (the altitude and azimuth of the call), the second the baseline.
\<close>

fun baseline_delay :: "vec3 \<Rightarrow> vec3 \<Rightarrow> real" where
  "baseline_delay (dx, dy, dz) (x, y, z) = dx * x + dy * y + dz * z"

text \<open>
  The first loop of the delay computation (the loop over \<open>x\<close> that fills \<open>center_tmp\<close>):
  the accumulator is \<open>(center_tmp, first, idx)\<close>, started at \<open>((0, 0, 0), -1, 1)\<close>.
\<close>

definition center_step :: "AHP_XC \<Rightarrow> nat \<Rightarrow> vec3 \<times> int \<times> int \<Rightarrow> (vec3 \<times> int \<times> int) option" where
  "center_step st x acc =
     (case acc of (center_tmp, first, idx) \<Rightarrow>
        do {
          e \<leftarrow> nth_opt (lineEnable st) x;
          if e then
            (if first > -1 then
               do {
                 p \<leftarrow> nth_opt (lineLocation st) x;
                 pf \<leftarrow> nth_int (lineLocation st) first;
                 Some (vadd center_tmp (vsub p pf), first, idx + 1)
               }
             else Some (center_tmp, int x, idx))
          else Some acc
        })"

text \<open>
  After the loop the sum is divided by \<open>idx\<close> and \<open>lineLocationNP[first]\<close> is added;
  \<open>first\<close> is still \<open>-1\<close> when no line is enabled, and the read is then outside the array.
\<close>

definition array_center :: "xc_env \<Rightarrow> AHP_XC \<Rightarrow> vec3 option" where
  "array_center env st =
     do {
       (center_tmp, first, idx) \<leftarrow> foldM (center_step st) [0..<nlines env] ((0, 0, 0), -1, 1);
       pf \<leftarrow> nth_int (lineLocation st) first;
       Some (vadd (vdiv center_tmp (real_of_int idx)) pf)
     }"

text \<open>
  The second loop stores the position of every enabled line relative to the centre and
  looks for the reference line \<open>farest\<close>; the accumulator is
  \<open>(center, farest, delay_max)\<close>, started at \<open>(center, 0, 0)\<close>. Where the relative
  position is the null vector the C program divides zero by zero and compares a NaN,
  which is false; here the quotient is \<open>0\<close> and \<open>0 > delay_max\<close> is false as well,
  since \<open>delay_max\<close> never goes below its initial \<open>0\<close>.
\<close>

definition farest_step ::
  "xc_env \<Rightarrow> AHP_XC \<Rightarrow> vec3 \<Rightarrow> nat \<Rightarrow> vec3 list \<times> nat \<times> real \<Rightarrow> (vec3 list \<times> nat \<times> real) option" where
  "farest_step env st center_tmp x acc =
     (case acc of (cen, farest, delay_max) \<Rightarrow>
        do {
          e \<leftarrow> nth_opt (lineEnable st) x;
          if e then
            do {
              p \<leftarrow> nth_opt (lineLocation st) x;
              cen' \<leftarrow> upd_opt cen x (vsub p center_tmp);
              let delay_tmp = baseline_delay (direction env) (vsub p center_tmp)
                                / vnorm (vsub p center_tmp);
              Some (cen',
                    if delay_tmp > delay_max then x else farest,
                    if delay_tmp > delay_max then delay_tmp else delay_max)
            }
          else Some acc
        })"

text \<open>The clamp of the tick count, on C's \<open>unsigned int\<close>.\<close>

definition clamp_clocks :: "32 word \<Rightarrow> 32 word \<Rightarrow> 32 word" where
  "clamp_clocks ds delay_clocks =
     (if delay_clocks > 0 then (if delay_clocks < ds then delay_clocks else ds - 1) else 0)"

text \<open>The index pairs of the nested loops \<open>for x ... for y = x + 1 ...\<close>, in their order.\<close>

definition pairs :: "nat \<Rightarrow> (nat \<times> nat) list" where
  "pairs n = concat (map (\<lambda>x. map (\<lambda>y. (x, y)) [x + 1..<n]) [0..<n])"

text \<open>Modelled from the spec: \<open>getDelay\<close> is a method of the baseline object, whose class is
  not part of the source. The specification has the baseline delay computed by the same
  projection, from the vector the object holds (the difference of the two positions,
  stored when a location is set).
\<close>

definition getDelay :: "xc_env \<Rightarrow> vec3 \<Rightarrow> real" where
  "getDelay env b = baseline_delay (direction env) b"

text \<open>
  The body of the pair loop; the accumulator is \<open>(delay, commands, idx)\<close>. The conversion
  of the \<open>double\<close> to \<open>unsigned int\<close> truncates, and is written here with the
  wrap-around of the 32-bit type for a value that does not fit.
\<close>

definition pair_step ::
  "xc_env \<Rightarrow> AHP_XC \<Rightarrow> nat \<Rightarrow> nat \<times> nat \<Rightarrow> real list \<times> xc_cmd list \<times> nat
     \<Rightarrow> (real list \<times> xc_cmd list \<times> nat) option" where
  "pair_step env st farest xy acc =
     (case xy of (x, y) \<Rightarrow> case acc of (dl, cmds, idx) \<Rightarrow>
        do {
          ex \<leftarrow> nth_opt (lineEnable st) x;
          ey \<leftarrow> (if ex then nth_opt (lineEnable st) y else Some False);
          if ex \<and> ey then
            do {
              b \<leftarrow> nth_opt (baselines st) idx;
              let d = \<bar>getDelay env b\<bar>;
              let delay_clocks = clamp_clocks (delaysize env)
                    (word_of_int \<lfloor>d * frequency env / LIGHTSPEED\<rfloor>);
              (dl1, cmds1) \<leftarrow>
                 (if y = farest then
                    do {
                      dl' \<leftarrow> upd_opt dl x d;
                      Some (dl', cmds @ [Set_channel_auto x 0 1 1,
                                         Set_channel_cross x delay_clocks 1 1])
                    }
                  else Some (dl, cmds));
              (dl2, cmds2) \<leftarrow>
                 (if x = farest then
                    do {
                      dl' \<leftarrow> upd_opt dl1 y d;
                      Some (dl', cmds1 @ [Set_channel_auto y 0 1 1,
                                          Set_channel_cross y delay_clocks 1 1])
                    }
                  else Some (dl1, cmds1));
              Some (dl2, cmds2, idx + 1)
            }
          else Some (dl, cmds, idx + 1)
        })"

definition delay_compensation :: "xc_env \<Rightarrow> AHP_XC \<Rightarrow> AHP_XC option" where
  "delay_compensation env st =
     do {
       center_tmp \<leftarrow> array_center env st;
       (cen, farest, delay_max) \<leftarrow>
          foldM (farest_step env st center_tmp) [0..<nlines env] (center st, 0, 0);
       dl \<leftarrow> upd_opt (delay st) farest 0;
       (dl', cmds', idx) \<leftarrow>
          foldM (pair_step env st farest) (pairs (nlines env))
            (dl, hw st @ [Set_channel_auto farest 0 1 1, Set_channel_cross farest 0 1 1], 0);
       Some (st\<lparr>center := cen, delay := dl', hw := cmds'\<rparr>)
     }"

section \<open>The preview image\<close>

text \<open>C's integer division and its conversion of a \<open>double\<close> to \<open>int\<close> truncate toward zero.\<close>

definition c_div :: "int \<Rightarrow> int \<Rightarrow> int" where
  "c_div a b = sgn a * sgn b * (\<bar>a\<bar> div \<bar>b\<bar>)"

definition c_trunc :: "real \<Rightarrow> int" where
  "c_trunc r = (if 0 \<le> r then \<lfloor>r\<rfloor> else \<lceil>r\<rceil>)"

definition upd_int :: "'a list \<Rightarrow> int \<Rightarrow> 'a \<Rightarrow> 'a list option" where
  "upd_int xs i v = (if 0 \<le> i then upd_opt xs (nat i) v else None)"

definition add_cell :: "real \<Rightarrow> real option \<Rightarrow> real option" where
  "add_cell v c = map_option (\<lambda>a. a + v) c"

definition plot_step ::
  "xc_env \<Rightarrow> ahp_xc_packet \<Rightarrow> AHP_XC \<Rightarrow> nat \<times> nat \<Rightarrow> dsp_stream list \<times> nat
     \<Rightarrow> (dsp_stream list \<times> nat) option" where
  "plot_step env packet st xy acc =
     (case xy of (x, y) \<Rightarrow> case acc of (plots, idx) \<Rightarrow>
        do {
          ex \<leftarrow> nth_opt (lineEnable st) x;
          ey \<leftarrow> (if ex then nth_opt (lineEnable st) y else Some False);
          if ex \<and> ey then
            do {
              p0 \<leftarrow> nth_opt plots 0;
              w \<leftarrow> nth_opt (sizes p0) 0;
              h \<leftarrow> nth_opt (sizes p0) 1;
              b \<leftarrow> nth_opt (baselines st) idx;
              let xx = c_trunc (real_of_int w * fst (uvcoord env idx) / 2);
              let yy = c_trunc (real_of_int h * snd (uvcoord env idx) / 2);
              let z = c_div (w * h) 2 + c_div w 2 + xx + yy * w;
              if xx \<ge> - c_div w 2 \<and> xx < c_div w 2 \<and> yy \<ge> - c_div w 2 \<and> yy < c_div h 2 then
                do {
                  cc \<leftarrow> nth_opt (crosscorrelations packet) idx;
                  c \<leftarrow> nth_opt (correlations cc) (lag_size cc div 2);
                  c0 \<leftarrow> nth_int (buf p0) z;
                  b1 \<leftarrow> upd_int (buf p0) z (add_cell (magnitude c / counts c) c0);
                  c1 \<leftarrow> nth_int b1 (w * h - 1 - z);
                  b2 \<leftarrow> upd_int b1 (w * h - 1 - z) (add_cell (magnitude c / counts c) c1);
                  Some (plots[0 := p0\<lparr>buf := b2\<rparr>], idx + 1)
                }
              else Some (plots, idx + 1)
            }
          else Some (plots, idx + 1)
        })"

definition plot_fill :: "xc_env \<Rightarrow> ahp_xc_packet \<Rightarrow> AHP_XC \<Rightarrow> AHP_XC option" where
  "plot_fill env packet st =
     (if nplots > 0 then
        do {
          (plots, idx) \<leftarrow> foldM (plot_step env packet st) (pairs (nlines env)) (plot_str st, 0);
          Some (st\<lparr>plot_str := plots\<rparr>)
        }
      else Some st)"

section \<open>Accumulation of the lag vectors\<close>

text \<open>The inner loop \<open>buf[pos++] = ...\<close> over the values of one lag vector.\<close>

fun write_row :: "real option list \<Rightarrow> int \<Rightarrow> real list \<Rightarrow> real option list option" where
  "write_row b pos [] = Some b"
| "write_row b pos (v # vs) =
     (case upd_int b pos (Some v) of None \<Rightarrow> None | Some b' \<Rightarrow> write_row b' (pos + 1) vs)"

text \<open>
  The body of the loops over the autocorrelation and the crosscorrelation streams: the
  write position is the start of the last row the stream has, then the height and the
  length grow by one row, the buffer is reallocated and the lag vector is written.
\<close>

definition accumulate_row :: "dsp_stream \<Rightarrow> ahp_xc_sample \<Rightarrow> dsp_stream option" where
  "accumulate_row s smp =
     do {
       w \<leftarrow> nth_opt (sizes s) 0;
       h \<leftarrow> nth_opt (sizes s) 1;
       let pos = len s - w;
       let s1 = s\<lparr>sizes := (sizes s)[1 := h + 1], len := len s + w\<rparr>;
       let b = realloc (buf s) (len s1);
       vals \<leftarrow> (if lag_size smp \<le> length (correlations smp)
                 then Some (map magnitude (take (lag_size smp) (correlations smp)))
                 else None);
       b' \<leftarrow> write_row b pos vals;
       Some (s1\<lparr>buf := b'\<rparr>)
     }"

definition accumulate_step ::
  "ahp_xc_sample list \<Rightarrow> nat \<Rightarrow> dsp_stream list \<Rightarrow> dsp_stream list option" where
  "accumulate_step samples x strs =
     do {
       s \<leftarrow> nth_opt strs x;
       smp \<leftarrow> nth_opt samples x;
       s' \<leftarrow> accumulate_row s smp;
       Some (strs[x := s'])
     }"

definition accumulate_auto :: "xc_env \<Rightarrow> ahp_xc_packet \<Rightarrow> AHP_XC \<Rightarrow> AHP_XC option" where
  "accumulate_auto env packet st =
     (if nlines env > 0 \<and> autocorrelator_lagsize env > 1 then
        do {
          strs \<leftarrow> foldM (accumulate_step (autocorrelations packet)) [0..<nlines env]
                    (autocorrelations_str st);
          Some (st\<lparr>autocorrelations_str := strs\<rparr>)
        }
      else Some st)"

definition accumulate_cross :: "xc_env \<Rightarrow> ahp_xc_packet \<Rightarrow> AHP_XC \<Rightarrow> AHP_XC option" where
  "accumulate_cross env packet st =
     (if nbaselines env > 0 \<and> crosscorrelator_lagsize env > 1 then
        do {
          strs \<leftarrow> foldM (accumulate_step (crosscorrelations packet)) [0..<nbaselines env]
                    (crosscorrelations_str st);
          Some (st\<lparr>crosscorrelations_str := strs\<rparr>)
        }
      else Some st)"

definition accumulate :: "xc_env \<Rightarrow> ahp_xc_packet \<Rightarrow> AHP_XC \<Rightarrow> AHP_XC option" where
  "accumulate env packet st =
     do {
       st1 \<leftarrow> accumulate_auto env packet st;
       accumulate_cross env packet st1
     }"

section \<open>Serialization at the end of an integration\<close>

text \<open>
  \<open>createFITS\<close>: the pass through the function for a sample width \<open>bpp\<close>; the calls
  into the FITS library are the outcome \<open>cfitsio env stream\<close>. The result is the value
  left in \<open>*memsize\<close> and whether the returned pointer is not null. The memory file is
  allocated with 5760 bytes and the library only grows it, so once the function has set
  \<open>*memsize\<close> the value is never below 5760.
\<close>

definition createFITS :: "xc_env \<Rightarrow> int \<Rightarrow> nat \<Rightarrow> dsp_stream \<Rightarrow> nat \<times> bool" where
  "createFITS env bpp memsize stream =
     (if bpp \<notin> {8, 16, 32, 64, - 32, - 64} then (memsize, False)
      else if \<not> malloc_ok (cfitsio env stream) then (5760, False)
      else if create_memfile_status (cfitsio env stream) \<noteq> 0
        then (max 5760 (memfile_size (cfitsio env stream)), False)
      else if create_img_status (cfitsio env stream) \<noteq> 0
        then (max 5760 (memfile_size (cfitsio env stream)), False)
      else if write_img_status (cfitsio env stream) \<noteq> 0
        then (max 5760 (memfile_size (cfitsio env stream)), False)
      else (max 5760 (memfile_size (cfitsio env stream)), True))"

text \<open>
  The part the three serialization loops share. The staging block \<open>blob\<close> is reallocated
  to \<open>memsize + next_size\<close> bytes, then \<open>createFITS\<close> is called and overwrites
  \<open>memsize\<close>. Only when it returned a pointer, \<open>memcpy\<close> copies \<open>next_size\<close> bytes
  from the FITS block, which has \<open>memsize\<close> bytes, to the offset \<open>memsize\<close> of the staging
  block, the output slot is assigned and \<open>memsize\<close> advances. The accumulator is
  \<open>(memsize, slots)\<close>. The bytes of the blocks are not modelled, their sizes are: a copy
  that leaves the staging block or the FITS block has no defined result, and a slot
  records the offset and the length the code computes.
\<close>

definition next_size :: "dsp_stream \<Rightarrow> nat" where
  "next_size s = unat (word_of_int (len s) :: 32 word) * 8"

definition emit_blob :: "xc_env \<Rightarrow> dsp_stream \<Rightarrow> nat \<Rightarrow> nat \<times> IBLOB list \<Rightarrow> (nat \<times> IBLOB list) option" where
  "emit_blob env s x acc =
     (case acc of (memsize, slots) \<Rightarrow>
        (if snd (createFITS env (- 64) memsize s) then
           (if fst (createFITS env (- 64) memsize s) + next_size s \<le> memsize + next_size s
               \<and> next_size s \<le> fst (createFITS env (- 64) memsize s)
            then
              do {
                slot \<leftarrow> nth_opt slots x;
                Some (fst (createFITS env (- 64) memsize s) + next_size s,
                      slots[x := slot\<lparr>blob := Some (fst (createFITS env (- 64) memsize s)),
                                       bloblen := sint (word_of_nat (next_size s) :: 32 word)\<rparr>])
              }
            else None)
         else Some (fst (createFITS env (- 64) memsize s), slots)))"

text \<open>The body of the loop over the plots; the accumulator is \<open>(memsize, plotB, plot_str)\<close>.\<close>

definition plot_blob_step ::
  "xc_env \<Rightarrow> nat \<Rightarrow> nat \<times> IBLOB list \<times> dsp_stream list \<Rightarrow> (nat \<times> IBLOB list \<times> dsp_stream list) option" where
  "plot_blob_step env x acc =
     (case acc of (memsize, slots, strs) \<Rightarrow>
        do {
          s \<leftarrow> nth_opt strs x;
          (memsize', slots') \<leftarrow> emit_blob env s x (memsize, slots);
          b \<leftarrow> dsp_buffer_set (buf s) (len s) 0;
          Some (memsize', slots', strs[x := s\<lparr>buf := b\<rparr>])
        })"

text \<open>
  The body of the loops over the autocorrelation and the crosscorrelation streams: after
  the slot, the stream is brought back to one row of zeros.
\<close>

definition reset_stream :: "dsp_stream \<Rightarrow> dsp_stream option" where
  "reset_stream s =
     do {
       b \<leftarrow> dsp_buffer_set
              (buf (dsp_stream_alloc_buffer (dsp_stream_set_dim s 1 1) (len (dsp_stream_set_dim s 1 1))))
              (len (dsp_stream_set_dim s 1 1)) 0;
       Some ((dsp_stream_set_dim s 1 1)\<lparr>buf := b\<rparr>)
     }"

definition corr_blob_step ::
  "xc_env \<Rightarrow> nat \<Rightarrow> nat \<times> IBLOB list \<times> dsp_stream list \<Rightarrow> (nat \<times> IBLOB list \<times> dsp_stream list) option" where
  "corr_blob_step env x acc =
     (case acc of (memsize, slots, strs) \<Rightarrow>
        do {
          s \<leftarrow> nth_opt strs x;
          (memsize', slots') \<leftarrow> emit_blob env s x (memsize, slots);
          s' \<leftarrow> reset_stream s;
          Some (memsize', slots', strs[x := s'])
        })"

text \<open>
  The branch \<open>timeleft == 0\<close> of an active integration. The loop over the
  crosscorrelations runs over the pairs \<open>(x, y)\<close> and indexes the streams and the slots
  with \<open>x\<close>, as the source does. The hand-over of a plot to the optional DSP plugin
  and the notifications to the client leave the fields of the state alone and are not
  part of the model.
\<close>

definition finalize :: "xc_env \<Rightarrow> AHP_XC \<Rightarrow> AHP_XC option" where
  "finalize env st =
     do {
       (m1, pB, pS) \<leftarrow> foldM (plot_blob_step env) [0..<nplots] (0, plotB st, plot_str st);
       (m2, aB, aS) \<leftarrow>
          (if nlines env > 0 \<and> autocorrelator_lagsize env > 1
           then foldM (corr_blob_step env) [0..<nlines env]
                  (0, autocorrelationsB st, autocorrelations_str st)
           else Some (0, autocorrelationsB st, autocorrelations_str st));
       (m3, cB, cS) \<leftarrow>
          (if nbaselines env > 0 \<and> crosscorrelator_lagsize env > 1
           then foldM (corr_blob_step env) (map fst (pairs (nlines env)))
                  (0, crosscorrelationsB st, crosscorrelations_str st)
           else Some (0, crosscorrelationsB st, crosscorrelations_str st));
       Some (st\<lparr>InIntegration := False, plotB := pB, plot_str := pS,
                 autocorrelationsB := aB, autocorrelations_str := aS,
                 crosscorrelationsB := cB, crosscorrelations_str := cS\<rparr>)
     }"

section \<open>The running totals\<close>

definition add_correlation :: "ahp_xc_correlation \<Rightarrow> ahp_xc_correlation \<Rightarrow> ahp_xc_correlation" where
  "add_correlation t c = t\<lparr>counts := counts t + counts c, magnitude := magnitude t + magnitude c\<rparr>"

definition total_pair_step ::
  "ahp_xc_packet \<Rightarrow> AHP_XC \<Rightarrow> nat \<Rightarrow> nat \<Rightarrow> ahp_xc_correlation list \<times> nat
     \<Rightarrow> (ahp_xc_correlation list \<times> nat) option" where
  "total_pair_step packet st x y acc =
     (case acc of (tc, idx) \<Rightarrow>
        do {
          ex \<leftarrow> nth_opt (lineEnable st) x;
          ey \<leftarrow> (if ex then nth_opt (lineEnable st) y else Some False);
          if ex \<and> ey then
            do {
              cc \<leftarrow> nth_opt (crosscorrelations packet) idx;
              c \<leftarrow> nth_opt (correlations cc) (lag_size cc div 2);
              t \<leftarrow> nth_opt tc idx;
              Some (tc[idx := add_correlation t c], idx + 1)
            }
          else Some (tc, idx + 1)
        })"

definition total_step ::
  "xc_env \<Rightarrow> ahp_xc_packet \<Rightarrow> AHP_XC \<Rightarrow> nat \<Rightarrow> real list \<times> ahp_xc_correlation list \<times> nat
     \<Rightarrow> (real list \<times> ahp_xc_correlation list \<times> nat) option" where
  "total_step env packet st x acc =
     (case acc of (tn, tc, idx) \<Rightarrow>
        do {
          e \<leftarrow> nth_opt (lineEnable st) x;
          tn' \<leftarrow> (if e then
                    do {
                      t \<leftarrow> nth_opt tn x;
                      c \<leftarrow> nth_opt (pkt_counts packet) x;
                      Some (tn[x := t + c])
                    }
                  else Some tn);
          (tc', idx') \<leftarrow> foldM (total_pair_step packet st x) [x + 1..<nlines env] (tc, idx);
          Some (tn', tc', idx')
        })"

definition totals :: "xc_env \<Rightarrow> ahp_xc_packet \<Rightarrow> AHP_XC \<Rightarrow> AHP_XC option" where
  "totals env packet st =
     do {
       (tn, tc, idx) \<leftarrow> foldM (total_step env packet st) [0..<nlines env]
                          (totalcounts st, totalcorrelations st, 0);
       Some (st\<lparr>totalcounts := tn, totalcorrelations := tc\<rparr>)
     }"

section \<open>One pass of the reader loop\<close>

text \<open>
  What the pass finds: the device is not connected, the correlator has no packet ready,
  or a packet.
\<close>

datatype poll = NotConnected | NotReady | Ready ahp_xc_packet

text \<open>
  The branch of an active integration whose time has not run out: the altitude and the
  azimuth of the target are recomputed, then the delays, the preview and the buffers.
\<close>

definition integrate :: "xc_env \<Rightarrow> ahp_xc_packet \<Rightarrow> AHP_XC \<Rightarrow> AHP_XC option" where
  "integrate env packet st =
     do {
       st1 \<leftarrow> delay_compensation env
                (st\<lparr>Altitude := fst (alt_az env), Azimuth := snd (alt_az env)\<rparr>);
       st2 \<leftarrow> plot_fill env packet st1;
       accumulate env packet st2
     }"

definition Callback_packet :: "xc_env \<Rightarrow> ahp_xc_packet \<Rightarrow> AHP_XC \<Rightarrow> AHP_XC option" where
  "Callback_packet env packet st =
     do {
       st1 \<leftarrow>
         (if InIntegration st then
            (if (if CalcTimeLeft env st \<le> 0 then 0 else CalcTimeLeft env st) = 0
             then finalize env
                    (st\<lparr>timeleft := (if CalcTimeLeft env st \<le> 0 then 0 else CalcTimeLeft env st)\<rparr>)
             else integrate env packet
                    (st\<lparr>timeleft := (if CalcTimeLeft env st \<le> 0 then 0 else CalcTimeLeft env st)\<rparr>))
          else Some (st\<lparr>timeleft := (if CalcTimeLeft env st \<le> 0 then 0 else CalcTimeLeft env st)\<rparr>));
       totals env packet st1
     }"

definition Callback :: "xc_env \<Rightarrow> poll \<Rightarrow> AHP_XC \<Rightarrow> AHP_XC option" where
  "Callback env p st =
     (case p of
        NotConnected \<Rightarrow> Some st
      | NotReady \<Rightarrow> Some st
      | Ready packet \<Rightarrow> Callback_packet env packet st)"

section \<open>The buffers at connection\<close>

text \<open>
  The correlation streams \<open>Handshake\<close> creates: one per baseline and one per line, each
  with the lag size as its width and one row.
\<close>

definition new_stream :: "int \<Rightarrow> dsp_stream" where
  "new_stream w =
     dsp_stream_alloc_buffer (dsp_stream_add_dim (dsp_stream_add_dim dsp_stream_new w) 1)
       (len (dsp_stream_add_dim (dsp_stream_add_dim dsp_stream_new w) 1))"

definition Handshake_streams :: "xc_env \<Rightarrow> AHP_XC \<Rightarrow> AHP_XC" where
  "Handshake_streams env st =
     st\<lparr>crosscorrelations_str :=
          (if crosscorrelator_lagsize env > 1
           then map (\<lambda>x. new_stream (int (crosscorrelator_lagsize env * 2 - 1))) [0..<nbaselines env]
           else crosscorrelations_str st),
        autocorrelations_str :=
          (if autocorrelator_lagsize env > 1
           then map (\<lambda>x. new_stream (int (autocorrelator_lagsize env))) [0..<nlines env]
           else autocorrelations_str st)\<rparr>"

section \<open>Well-formed streams and packets, and a sample array\<close>

text \<open>
  A correlation stream of width \<open>w\<close>: two dimensions, the width and a height of at least
  one row, and a buffer of exactly \<open>len\<close> cells. A lag vector fits a stream of width
  \<open>w\<close> when it has the values it announces and they fit in the two rows the write can
  reach.
\<close>

definition wf_stream :: "int \<Rightarrow> dsp_stream \<Rightarrow> bool" where
  "wf_stream w s \<longleftrightarrow>
     length (sizes s) = 2 \<and> sizes s ! 0 = w \<and> 1 \<le> sizes s ! 1 \<and> 0 \<le> w
     \<and> len s = w * (sizes s ! 1) \<and> length (buf s) = nat (len s)"

definition wf_sample :: "int \<Rightarrow> ahp_xc_sample \<Rightarrow> bool" where
  "wf_sample w smp \<longleftrightarrow> lag_size smp \<le> length (correlations smp) \<and> int (lag_size smp) \<le> 2 * w"

text \<open>
  A correlator with three lines, and the array of the scenario of the specification:
  lines at \<open>(0, 0, 0)\<close>, \<open>(10, 0, 0)\<close> and \<open>(0, 10, 0)\<close>.
\<close>

definition fits_good :: fits_io where
  "fits_good = \<lparr>malloc_ok = True, create_memfile_status = 0, create_img_status = 0,
                 write_img_status = 0, memfile_size = 5760\<rparr>"

definition ex_env :: xc_env where
  "ex_env = \<lparr>nlines = 3, nbaselines = 3, autocorrelator_lagsize = 2,
              crosscorrelator_lagsize = 2, delaysize = 1024, frequency = 100000000,
              now = \<lparr>tv_sec = 5, tv_usec = 0\<rparr>, alt_az = (90, 0), direction = (0, 0, 1),
              uvcoord = (\<lambda>idx. (0, 0)), cfitsio = (\<lambda>s. fits_good)\<rparr>"

definition ex_slot :: IBLOB where
  "ex_slot = \<lparr>blob = None, bloblen = 0\<rparr>"

definition ex_base :: "bool list \<Rightarrow> AHP_XC" where
  "ex_base en =
       \<lparr>InIntegration = True, IntegrationRequest = 10,
        ExpStart = \<lparr>tv_sec = 0, tv_usec = 0\<rparr>, timeleft = 10,
        lineEnable = en,
        lineLocation = [(0, 0, 0), (10, 0, 0), (0, 10, 0)],
        center = [(0, 0, 0), (0, 0, 0), (0, 0, 0)],
        delay = [7, 7, 7],
        baselines = [(10, 0, 0), (0, 10, 0), (- 10, 10, 0)],
        autocorrelations_str = [], crosscorrelations_str = [],
        plot_str = [new_stream 1],
        autocorrelationsB = [ex_slot, ex_slot, ex_slot],
        crosscorrelationsB = [ex_slot, ex_slot, ex_slot],
        plotB = [ex_slot],
        totalcounts = [0, 0, 0],
        totalcorrelations = [\<lparr>counts = 0, magnitude = 0\<rparr>, \<lparr>counts = 0, magnitude = 0\<rparr>,
                             \<lparr>counts = 0, magnitude = 0\<rparr>],
        hw = [], Altitude = 0, Azimuth = 0\<rparr>"

definition ex_state :: "bool list \<Rightarrow> AHP_XC" where
  "ex_state en = Handshake_streams ex_env (ex_base en)"

definition ex_sample :: "real list \<Rightarrow> ahp_xc_sample" where
  "ex_sample ms = \<lparr>lag_size = length ms, correlations = map (\<lambda>m. \<lparr>counts = 1, magnitude = m\<rparr>) ms\<rparr>"

definition ex_packet :: ahp_xc_packet where
  "ex_packet = \<lparr>pkt_counts = [1, 1, 1],
                 autocorrelations = [ex_sample [1, 2], ex_sample [3, 4], ex_sample [5, 6]],
                 crosscorrelations = [ex_sample [1, 2, 3], ex_sample [4, 5, 6], ex_sample [7, 8, 9]]\<rparr>"

text \<open>
  Encoders that fail at writing some images: the one of the stream whose first sample is
  \<open>3\<close>; every image of more than one row; every image at most two samples wide and the
  one whose first sample is \<open>1\<close>.
\<close>

definition fits_bad :: fits_io where
  "fits_bad = \<lparr>malloc_ok = True, create_memfile_status = 0, create_img_status = 0,
                write_img_status = 106, memfile_size = 5760\<rparr>"

definition ex_env_fail :: xc_env where
  "ex_env_fail = ex_env\<lparr>cfitsio := (\<lambda>s. if buf s ! 0 = Some 3 then fits_bad else fits_good)\<rparr>"

definition ex_env_rows :: xc_env where
  "ex_env_rows = ex_env\<lparr>cfitsio := (\<lambda>s. if 1 < sizes s ! 1 then fits_bad else fits_good)\<rparr>"

text \<open>
  The state one accumulation tick after connection, three lines enabled, with a plot of
  two by two samples.
\<close>

definition ex_accumulated :: AHP_XC where
  "ex_accumulated =
     the (accumulate ex_env ex_packet
            ((ex_state [True, True, True])
               \<lparr>plot_str := [\<lparr>sizes = [2, 2], len = 4,
                               buf = [Some 0, Some 0, Some 0, Some 0]\<rparr>]\<rparr>))"

text \<open>
  An integration that is aborted after one pass of the reader loop and started again, the
  pass that follows, and the clock and the encoders of the pass that ends the second
  integration.
\<close>

definition ex_cycle1 :: AHP_XC where
  "ex_cycle1 = the (Callback ex_env (Ready ex_packet) (ex_state [True, True, True]))"

definition ex_restart :: AHP_XC where
  "ex_restart = snd (StartIntegration ex_env 10 (snd (AbortIntegration ex_cycle1)))"

definition ex_cycle2 :: AHP_XC where
  "ex_cycle2 = the (Callback ex_env (Ready ex_packet) ex_restart)"

definition ex_late :: xc_env where
  "ex_late = ex_env\<lparr>now := \<lparr>tv_sec = 20, tv_usec = 0\<rparr>\<rparr>"

definition ex_late_first :: xc_env where
  "ex_late_first =
     ex_late\<lparr>cfitsio := (\<lambda>s. if sizes s ! 0 \<le> 2 \<or> buf s ! 0 = Some 1 then fits_bad else fits_good)\<rparr>"

text \<open>
  The array right after connection, every line at the default location \<open>(0, 0, 0)\<close>; and
  an array along the first axis observed in the direction \<open>(0, 1, 0)\<close>, perpendicular to
  all of its baselines.
\<close>

definition ex_origin :: "bool list \<Rightarrow> AHP_XC" where
  "ex_origin en =
     (ex_state en)\<lparr>lineLocation := [(0, 0, 0), (0, 0, 0), (0, 0, 0)],
                   baselines := [(0, 0, 0), (0, 0, 0), (0, 0, 0)]\<rparr>"

definition ex_north :: xc_env where
  "ex_north = ex_env\<lparr>alt_az := (0, 0), direction := (0, 1, 0)\<rparr>"

definition ex_east_west :: "bool list \<Rightarrow> AHP_XC" where
  "ex_east_west en =
     (ex_state en)\<lparr>lineLocation := [(0, 0, 0), (0, 0, 0), (10, 0, 0)],
                   baselines := [(0, 0, 0), (10, 0, 0), (10, 0, 0)]\<rparr>"

section \<open>Notions used to state the properties\<close>

text \<open>
  The stream \<open>accumulate_row\<close> returns on a well-formed stream, in closed form: the last
  row the stream had is overwritten with the lag vector and one more row follows.
\<close>

definition append_row :: "dsp_stream \<Rightarrow> ahp_xc_sample \<Rightarrow> dsp_stream" where
  "append_row s smp =
     \<lparr>sizes = [sizes s ! 0, sizes s ! 1 + 1], len = len s + sizes s ! 0,
      buf = take (nat (len s - sizes s ! 0)) (buf s)
            @ map Some (map magnitude (take (lag_size smp) (correlations smp)))
            @ drop (nat (len s - sizes s ! 0) + lag_size smp)
                (buf s @ replicate (nat (sizes s ! 0)) None)\<rparr>"

text \<open>
  The rows of a stream that accumulation has written: every row but the last, which is
  the row the next packet will fill.
\<close>

definition written :: "dsp_stream \<Rightarrow> real option list" where
  "written s = take (nat (len s - sizes s ! 0)) (buf s)"

text \<open>
  The correlation streams of a state are well-formed for a correlator when there is one
  autocorrelation stream per line and one crosscorrelation stream per baseline, each
  well-formed at its lag width; a packet is well-formed when it carries one fitting lag
  vector for each of them.
\<close>

definition wf_buffers :: "xc_env \<Rightarrow> AHP_XC \<Rightarrow> bool" where
  "wf_buffers env st \<longleftrightarrow>
     length (autocorrelations_str st) = nlines env
     \<and> list_all (wf_stream (int (autocorrelator_lagsize env))) (autocorrelations_str st)
     \<and> length (crosscorrelations_str st) = nbaselines env
     \<and> list_all (wf_stream (int (crosscorrelator_lagsize env * 2 - 1))) (crosscorrelations_str st)"

definition wf_packet :: "xc_env \<Rightarrow> ahp_xc_packet \<Rightarrow> bool" where
  "wf_packet env packet \<longleftrightarrow>
     length (autocorrelations packet) = nlines env
     \<and> list_all (wf_sample (int (autocorrelator_lagsize env))) (autocorrelations packet)
     \<and> length (crosscorrelations packet) = nbaselines env
     \<and> list_all (wf_sample (int (crosscorrelator_lagsize env * 2 - 1))) (crosscorrelations packet)"

text \<open>The accumulation of a sequence of packets, one tick after the other.\<close>

definition accumulate_ticks :: "xc_env \<Rightarrow> ahp_xc_packet list \<Rightarrow> AHP_XC \<Rightarrow> AHP_XC option" where
  "accumulate_ticks env packets st = foldM (accumulate env) packets st"

text \<open>
  The specification's phase centre: the arithmetic mean of the positions of the enabled
  lines, written from its words to be compared with what \<open>array_center\<close> computes.
\<close>

definition vsum :: "vec3 list \<Rightarrow> vec3" where
  "vsum vs = foldl vadd (0, 0, 0) vs"

definition enabled_lines :: "xc_env \<Rightarrow> AHP_XC \<Rightarrow> nat list" where
  "enabled_lines env st = filter (\<lambda>x. lineEnable st ! x) [0..<nlines env]"

definition mean_position :: "xc_env \<Rightarrow> AHP_XC \<Rightarrow> vec3" where
  "mean_position env st =
     vdiv (vsum (map (\<lambda>x. lineLocation st ! x) (enabled_lines env st)))
          (real (length (enabled_lines env st)))"

text \<open>The quantity the reference line maximizes: the delay of a line's position relative
  to the centre \<open>c\<close>, over the length of that relative position.\<close>

definition ratio :: "xc_env \<Rightarrow> AHP_XC \<Rightarrow> vec3 \<Rightarrow> nat \<Rightarrow> real" where
  "ratio env st c x =
     baseline_delay (direction env) (vsub (lineLocation st ! x) c) / vnorm (vsub (lineLocation st ! x) c)"

text \<open>The per-line arrays have one element per line, and there is a baseline object for
  every pair of lines.\<close>

definition wf_lines :: "xc_env \<Rightarrow> AHP_XC \<Rightarrow> bool" where
  "wf_lines env st \<longleftrightarrow>
     length (lineEnable st) = nlines env \<and> length (lineLocation st) = nlines env
     \<and> length (center st) = nlines env \<and> length (delay st) = nlines env
     \<and> length (pairs (nlines env)) \<le> length (baselines st)"

text \<open>
  The tick count the pair loop computes for baseline \<open>idx\<close>, and the commands it sends for
  the pair \<open>(x, y)\<close> of that baseline when the reference line is \<open>farest\<close>.
\<close>

definition tick_count :: "xc_env \<Rightarrow> AHP_XC \<Rightarrow> nat \<Rightarrow> 32 word" where
  "tick_count env st idx =
     clamp_clocks (delaysize env)
       (word_of_int \<lfloor>\<bar>getDelay env (baselines st ! idx)\<bar> * frequency env / LIGHTSPEED\<rfloor>)"

definition pair_cmds :: "xc_env \<Rightarrow> AHP_XC \<Rightarrow> nat \<Rightarrow> (nat \<times> nat) \<times> nat \<Rightarrow> xc_cmd list" where
  "pair_cmds env st farest pidx =
     (case pidx of ((x, y), idx) \<Rightarrow>
        if lineEnable st ! x \<and> lineEnable st ! y then
          (if y = farest
           then [Set_channel_auto x 0 1 1, Set_channel_cross x (tick_count env st idx) 1 1] else [])
          @ (if x = farest
             then [Set_channel_auto y 0 1 1, Set_channel_cross y (tick_count env st idx) 1 1] else [])
        else [])"

text \<open>The definitions a concrete pass unfolds.\<close>

lemmas eval_defs =
  ex_env_def ex_state_def ex_base_def ex_packet_def ex_sample_def ex_slot_def fits_good_def
  Handshake_streams_def new_stream_def dsp_stream_new_def dsp_stream_add_dim_def
  dsp_stream_alloc_buffer_def dsp_stream_set_dim_def dsp_buffer_set_def realloc_def
  nth_opt_def nth_int_def upd_opt_def upd_int_def nplots_def

lemmas delay_defs =
  delay_compensation_def array_center_def center_step_def farest_step_def pair_step_def
  getDelay_def pairs_def clamp_clocks_def LIGHTSPEED_def

lemmas acc_defs =
  accumulate_def accumulate_auto_def accumulate_cross_def accumulate_step_def accumulate_row_def

lemmas cb_defs =
  Callback_def Callback_packet_def CalcTimeLeft_def totals_def total_step_def total_pair_step_def
  add_correlation_def

lemmas fin_defs =
  finalize_def plot_blob_step_def corr_blob_step_def emit_blob_def reset_stream_def createFITS_def
  next_size_def fits_bad_def

lemmas pass_defs =
  cb_defs delay_defs acc_defs integrate_def plot_fill_def plot_step_def c_div_def c_trunc_def


section \<open>The loops, in closed form\<close>

subsection \<open>Accumulation\<close>

lemma foldM_append:
  "foldM f (xs @ ys) s = (case foldM f xs s of None \<Rightarrow> None | Some s' \<Rightarrow> foldM f ys s')"
  by (induction xs arbitrary: s) (auto split: option.splits)

lemma foldM_upt_Suc:
  "foldM f [0..<Suc n] s = (case foldM f [0..<n] s of None \<Rightarrow> None | Some s' \<Rightarrow> f n s')"
  by (simp add: foldM_append split: option.splits)

lemma write_row_ok:
  "0 \<le> pos \<Longrightarrow> nat pos + length vs \<le> length b \<Longrightarrow>
   write_row b pos vs = Some (take (nat pos) b @ map Some vs @ drop (nat pos + length vs) b)"
proof (induction vs arbitrary: b pos)
  case Nil
  then show ?case by simp
next
  case (Cons v vs)
  have lt: "nat pos < length b" using Cons.prems by simp
  have u: "upd_int b pos (Some v) = Some (b[nat pos := Some v])"
    using Cons.prems lt by (simp add: upd_int_def upd_opt_def)
  have n1: "nat (pos + 1) = Suc (nat pos)" using Cons.prems by simp
  have ih: "write_row (b[nat pos := Some v]) (pos + 1) vs
      = Some (take (nat (pos + 1)) (b[nat pos := Some v]) @ map Some vs
              @ drop (nat (pos + 1) + length vs) (b[nat pos := Some v]))"
    using Cons.prems by (intro Cons.IH) auto
  have t: "take (Suc (nat pos)) (b[nat pos := Some v]) = take (nat pos) b @ [Some v]"
    using lt by (simp add: take_Suc_conv_app_nth)
  show ?case using u ih t n1 by simp
qed

lemma wf_stream_sizes: "wf_stream w s \<Longrightarrow> sizes s = [w, sizes s ! 1]"
  unfolding wf_stream_def
  by (cases "sizes s"; cases "tl (sizes s)") auto

lemma accumulate_row_ok:
  assumes s: "wf_stream w s" and smp: "wf_sample w smp"
  shows "accumulate_row s smp =
    Some \<lparr>sizes = [w, sizes s ! 1 + 1], len = len s + w,
          buf = take (nat (len s - w)) (buf s)
                @ map Some (map magnitude (take (lag_size smp) (correlations smp)))
                @ drop (nat (len s - w) + lag_size smp) (buf s @ replicate (nat w) None)\<rparr>"
proof -
  define h where "h = sizes s ! 1"
  have sz: "sizes s = [w, h]" using wf_stream_sizes[OF s] h_def by simp
  have h1: "1 \<le> h" and w0: "0 \<le> w" and l: "len s = w * h" and lb: "length (buf s) = nat (len s)"
    using s unfolding wf_stream_def h_def by auto
  have pos0: "0 \<le> len s - w"
  proof -
    have "w * 1 \<le> w * h" using h1 w0 by (intro mult_left_mono) auto
    then show ?thesis using l by simp
  qed
  have len0: "0 \<le> len s" using pos0 w0 by linarith
  have re: "realloc (buf s) (len s + w) = buf s @ replicate (nat w) None"
    using lb len0 w0 by (simp add: realloc_def nat_add_distrib)
  define vals where "vals = map magnitude (take (lag_size smp) (correlations smp))"
  have lv: "length vals = lag_size smp" using smp by (simp add: vals_def wf_sample_def)
  have fit: "nat (len s - w) + length vals \<le> length (buf s @ replicate (nat w) None)"
    using lv smp lb len0 w0 pos0 by (simp add: wf_sample_def) linarith
  have wr: "write_row (buf s @ replicate (nat w) None) (len s - w) vals
      = Some (take (nat (len s - w)) (buf s @ replicate (nat w) None) @ map Some vals
              @ drop (nat (len s - w) + length vals) (buf s @ replicate (nat w) None))"
    using write_row_ok[OF pos0 fit] .
  have tk: "take (nat (len s - w)) (buf s @ replicate (nat w) None) = take (nat (len s - w)) (buf s)"
    using lb w0 by simp
  have ok: "lag_size smp \<le> length (correlations smp)" using smp by (simp add: wf_sample_def)
  show ?thesis
    using wr tk lv ok re
    by (simp add: accumulate_row_def nth_opt_def sz h_def[symmetric] vals_def[symmetric])
qed

lemma accumulate_row_append:
  "wf_stream w s \<Longrightarrow> wf_sample w smp \<Longrightarrow> accumulate_row s smp = Some (append_row s smp)"
  using accumulate_row_ok[of w s smp] by (simp add: append_row_def wf_stream_def)

lemma append_row_sizes: "sizes (append_row s smp) = [sizes s ! 0, sizes s ! 1 + 1]"
  by (simp add: append_row_def)

lemma append_row_len: "len (append_row s smp) = len s + sizes s ! 0"
  by (simp add: append_row_def)

lemma append_row_buf:
  "buf (append_row s smp) = take (nat (len s - sizes s ! 0)) (buf s)
            @ map Some (map magnitude (take (lag_size smp) (correlations smp)))
            @ drop (nat (len s - sizes s ! 0) + lag_size smp)
                (buf s @ replicate (nat (sizes s ! 0)) None)"
  by (simp add: append_row_def)

lemma wf_stream_pos: "wf_stream w s \<Longrightarrow> 0 \<le> len s - w"
proof -
  assume s: "wf_stream w s"
  have w0: "0 \<le> w" and l: "len s = w * (sizes s ! 1)" and h1: "1 \<le> sizes s ! 1"
    using s unfolding wf_stream_def by auto
  have "w * 1 \<le> w * (sizes s ! 1)" using h1 w0 by (intro mult_left_mono) auto
  then show ?thesis using l by simp
qed

lemma append_row_length_buf:
  assumes s: "wf_stream w s" and smp: "wf_sample w smp"
  shows "length (buf (append_row s smp)) = nat (len s + w)"
proof -
  have w0: "0 \<le> w" and lb: "length (buf s) = nat (len s)" and s0: "sizes s ! 0 = w"
    using s unfolding wf_stream_def by auto
  have pos0: "0 \<le> len s - w" using wf_stream_pos[OF s] .
  have lg: "int (lag_size smp) \<le> 2 * w" and lc: "lag_size smp \<le> length (correlations smp)"
    using smp by (auto simp: wf_sample_def)
  define p where "p = nat (len s - w)"
  define g where "g = lag_size smp"
  define L where "L = nat (len s)"
  define W where "W = nat w"
  have pw: "p + W = L" using pos0 w0 by (simp add: p_def W_def L_def)
  have gw: "g \<le> 2 * W" using lg w0 by (simp add: g_def W_def)
  have lb': "length (buf s) = L" using lb by (simp add: L_def)
  have a: "length (take p (buf s)) = p" using lb' pw by simp
  have b: "length (map Some (map magnitude (take g (correlations smp)))) = g"
    using lc by (simp add: g_def)
  have c0: "length (drop (p + g) (buf s @ replicate W None)) = L + W - (p + g)"
    using lb' by simp
  have "length (buf (append_row s smp)) = p + g + (L + W - (p + g))"
    unfolding append_row_buf s0 p_def[symmetric] g_def[symmetric] W_def[symmetric]
    using a b c0 by (simp only: length_append)
  also have "\<dots> = L + W" using pw gw by simp
  also have "\<dots> = nat (len s + w)" using pos0 w0 by (simp add: nat_add_distrib L_def W_def)
  finally show ?thesis .
qed

lemma append_row_wf:
  assumes s: "wf_stream w s" and smp: "wf_sample w smp"
  shows "wf_stream w (append_row s smp)"
proof -
  have w0: "0 \<le> w" and l: "len s = w * (sizes s ! 1)"
    and h1: "1 \<le> sizes s ! 1" and s0: "sizes s ! 0 = w"
    using s unfolding wf_stream_def by auto
  have ln: "len s + w = w * (sizes s ! 1 + 1)" using l by (simp add: algebra_simps)
  show ?thesis
    unfolding wf_stream_def append_row_sizes append_row_len append_row_length_buf[OF s smp] s0
    using w0 h1 ln by simp
qed

lemma accumulate_loop:
  assumes "n \<le> length strs" and "n \<le> length samples"
    and "\<forall>x<n. wf_stream w (strs ! x) \<and> wf_sample w (samples ! x)"
  shows "foldM (accumulate_step samples) [0..<n] strs
         = Some (map (\<lambda>x. append_row (strs ! x) (samples ! x)) [0..<n] @ drop n strs)"
  using assms
proof (induction n)
  case 0
  then show ?case by simp
next
  case (Suc n)
  let ?L = "map (\<lambda>x. append_row (strs ! x) (samples ! x)) [0..<n]"
  have ih: "foldM (accumulate_step samples) [0..<n] strs = Some (?L @ drop n strs)"
    using Suc by simp
  have n1: "n < length strs" and n2: "n < length samples" using Suc.prems by auto
  have nth: "(?L @ drop n strs) ! n = strs ! n"
    using n1 by (simp add: nth_append)
  have row: "accumulate_row (strs ! n) (samples ! n) = Some (append_row (strs ! n) (samples ! n))"
    using Suc.prems(3) by (intro accumulate_row_append[of w]) auto
  have upd: "(?L @ drop n strs)[n := append_row (strs ! n) (samples ! n)]
        = ?L @ [append_row (strs ! n) (samples ! n)] @ drop (Suc n) strs"
  proof -
    have d: "drop n strs = strs ! n # drop (Suc n) strs"
      using n1 by (simp add: Cons_nth_drop_Suc)
    show ?thesis by (simp add: list_update_append d)
  qed
  have step: "accumulate_step samples n (?L @ drop n strs)
        = Some (?L @ [append_row (strs ! n) (samples ! n)] @ drop (Suc n) strs)"
    using n1 n2 row upd nth by (simp add: accumulate_step_def nth_opt_def)
  show ?case
    by (subst foldM_upt_Suc) (simp add: ih step)
qed

lemma accumulate_loop_all:
  assumes l1: "length strs = n" and l2: "length samples = n"
    and w1: "list_all (wf_stream w) strs" and w2: "list_all (wf_sample w) samples"
  shows "foldM (accumulate_step samples) [0..<n] strs = Some (map2 append_row strs samples)"
proof -
  have a: "\<forall>x<n. wf_stream w (strs ! x) \<and> wf_sample w (samples ! x)"
    using assms by (simp add: list_all_length)
  have "foldM (accumulate_step samples) [0..<n] strs
         = Some (map (\<lambda>x. append_row (strs ! x) (samples ! x)) [0..<n] @ drop n strs)"
    using accumulate_loop[of n strs samples w] a l1 l2 by simp
  moreover have "map (\<lambda>x. append_row (strs ! x) (samples ! x)) [0..<n] = map2 append_row strs samples"
    using l1 l2 by (simp add: list_eq_iff_nth_eq)
  ultimately show ?thesis using l1 by simp
qed

lemma map2_append_row_wf:
  assumes "length strs = length samples"
    and "list_all (wf_stream w) strs" and "list_all (wf_sample w) samples"
  shows "list_all (wf_stream w) (map2 append_row strs samples)"
  using assms by (auto simp: list_all_length append_row_wf)

lemma accumulate_auto_ok:
  assumes "wf_buffers env st" and "wf_packet env packet"
  shows "accumulate_auto env packet st =
     Some (if nlines env > 0 \<and> autocorrelator_lagsize env > 1
           then st\<lparr>autocorrelations_str :=
                    map2 append_row (autocorrelations_str st) (autocorrelations packet)\<rparr>
           else st)"
  using assms accumulate_loop_all[of "autocorrelations_str st" "nlines env" "autocorrelations packet"
      "int (autocorrelator_lagsize env)"]
  by (simp add: accumulate_auto_def wf_buffers_def wf_packet_def)

lemma accumulate_cross_ok:
  assumes "wf_buffers env st" and "wf_packet env packet"
  shows "accumulate_cross env packet st =
     Some (if nbaselines env > 0 \<and> crosscorrelator_lagsize env > 1
           then st\<lparr>crosscorrelations_str :=
                    map2 append_row (crosscorrelations_str st) (crosscorrelations packet)\<rparr>
           else st)"
  using assms accumulate_loop_all[of "crosscorrelations_str st" "nbaselines env" "crosscorrelations packet"
      "int (crosscorrelator_lagsize env * 2 - 1)"]
  by (simp add: accumulate_cross_def wf_buffers_def wf_packet_def)

lemma map2_append_row_nil: "strs = [] \<Longrightarrow> map2 append_row strs samples = strs"
  by simp

lemma accumulate_ok:
  assumes b: "wf_buffers env st" and p: "wf_packet env packet"
    and la: "1 < autocorrelator_lagsize env" and lc: "1 < crosscorrelator_lagsize env"
  shows "accumulate env packet st =
     Some (st\<lparr>autocorrelations_str :=
                 map2 append_row (autocorrelations_str st) (autocorrelations packet),
               crosscorrelations_str :=
                 map2 append_row (crosscorrelations_str st) (crosscorrelations packet)\<rparr>)"
proof -
  let ?st1 = "st\<lparr>autocorrelations_str :=
                 map2 append_row (autocorrelations_str st) (autocorrelations packet)\<rparr>"
  have a0: "nlines env = 0 \<Longrightarrow> autocorrelations_str st = []"
    using b by (simp add: wf_buffers_def)
  have c0: "nbaselines env = 0 \<Longrightarrow> crosscorrelations_str st = []"
    using b by (simp add: wf_buffers_def)
  have 1: "accumulate_auto env packet st = Some ?st1"
    using accumulate_auto_ok[OF b p] la a0 by (cases "nlines env = 0") auto
  have b1: "wf_buffers env ?st1"
    using b p map2_append_row_wf[of "autocorrelations_str st" "autocorrelations packet"
        "int (autocorrelator_lagsize env)"]
    by (simp add: wf_buffers_def wf_packet_def)
  have 2: "accumulate_cross env packet ?st1 =
      Some (?st1\<lparr>crosscorrelations_str :=
                 map2 append_row (crosscorrelations_str st) (crosscorrelations packet)\<rparr>)"
    using accumulate_cross_ok[OF b1 p] lc c0 by (cases "nbaselines env = 0") auto
  show ?thesis using 1 2 by (simp add: accumulate_def)
qed

lemma accumulate_wf:
  assumes b: "wf_buffers env st" and p: "wf_packet env packet"
  shows "wf_buffers env (st\<lparr>autocorrelations_str :=
                 map2 append_row (autocorrelations_str st) (autocorrelations packet),
               crosscorrelations_str :=
                 map2 append_row (crosscorrelations_str st) (crosscorrelations packet)\<rparr>)"
  using b p map2_append_row_wf[of "autocorrelations_str st" "autocorrelations packet"
        "int (autocorrelator_lagsize env)"]
     map2_append_row_wf[of "crosscorrelations_str st" "crosscorrelations packet"
        "int (crosscorrelator_lagsize env * 2 - 1)"]
  by (simp add: wf_buffers_def wf_packet_def)

lemma written_append_row:
  assumes s: "wf_stream w s" and smp: "wf_sample w smp"
  shows "prefix (written s) (written (append_row s smp))"
proof -
  have w0: "0 \<le> w" and lb: "length (buf s) = nat (len s)" and s0: "sizes s ! 0 = w"
    using s unfolding wf_stream_def by auto
  have pos0: "0 \<le> len s - w" using wf_stream_pos[OF s] .
  define p where "p = nat (len s - w)"
  define rest where "rest = map Some (map magnitude (take (lag_size smp) (correlations smp)))
            @ drop (p + lag_size smp) (buf s @ replicate (nat w) None)"
  have pl: "p \<le> nat (len s)" using pos0 w0 by (simp add: p_def)
  have lt: "length (take p (buf s)) = p" using lb pl by simp
  have b: "buf (append_row s smp) = take p (buf s) @ rest"
    by (simp add: append_row_buf s0 p_def rest_def)
  have "written (append_row s smp) = take (nat (len s)) (take p (buf s) @ rest)"
    by (simp add: written_def append_row_len append_row_sizes b s0)
  also have "\<dots> = take p (buf s) @ take (nat (len s) - p) rest"
    using lt pl by (simp add: take_append del: length_take)
  finally have "written (append_row s smp) = written s @ take (nat (len s) - p) rest"
    by (simp add: written_def s0 p_def)
  then show ?thesis by (simp add: prefix_def)
qed

lemma written_prefix_buf: "prefix (written s) (buf s)"
  by (simp add: written_def take_is_prefix)

lemma append_row_row:
  assumes s: "wf_stream w s" and smp: "wf_sample w smp"
  shows "take (lag_size smp) (drop (nat (len s - w)) (buf (append_row s smp)))
     = map Some (map magnitude (take (lag_size smp) (correlations smp)))"
proof -
  have w0: "0 \<le> w" and lb: "length (buf s) = nat (len s)" and s0: "sizes s ! 0 = w"
    using s unfolding wf_stream_def by auto
  have pos0: "0 \<le> len s - w" using wf_stream_pos[OF s] .
  have lc: "lag_size smp \<le> length (correlations smp)"
    using smp by (auto simp: wf_sample_def)
  define p where "p = nat (len s - w)"
  define vals where "vals = map Some (map magnitude (take (lag_size smp) (correlations smp)))"
  define rest where "rest = drop (p + lag_size smp) (buf s @ replicate (nat w) None)"
  have pl: "p \<le> nat (len s)" using pos0 w0 by (simp add: p_def)
  have lt: "length (take p (buf s)) = p" using lb pl by simp
  have lv: "length vals = lag_size smp" using lc by (simp add: vals_def)
  have b: "buf (append_row s smp) = take p (buf s) @ vals @ rest"
    by (simp add: append_row_buf s0 p_def rest_def vals_def)
  have "drop p (take p (buf s) @ vals @ rest) = vals @ rest"
    using lt by (simp del: length_take)
  then have "take (lag_size smp) (drop p (buf (append_row s smp))) = vals"
    using lv b by simp
  then show ?thesis by (simp add: p_def vals_def)
qed

lemma accumulate_ticks_ok:
  assumes la: "1 < autocorrelator_lagsize env" and lc: "1 < crosscorrelator_lagsize env"
  shows "wf_buffers env st \<Longrightarrow> list_all (wf_packet env) packets \<Longrightarrow>
    \<exists>st'. accumulate_ticks env packets st = Some st'
      \<and> wf_buffers env st'
      \<and> st' = st\<lparr>autocorrelations_str := autocorrelations_str st',
                   crosscorrelations_str := crosscorrelations_str st'\<rparr>
      \<and> (\<forall>x<nlines env.
            sizes (autocorrelations_str st' ! x) ! 1
              = sizes (autocorrelations_str st ! x) ! 1 + int (length packets)
            \<and> prefix (written (autocorrelations_str st ! x)) (written (autocorrelations_str st' ! x)))
      \<and> (\<forall>x<nbaselines env.
            sizes (crosscorrelations_str st' ! x) ! 1
              = sizes (crosscorrelations_str st ! x) ! 1 + int (length packets)
            \<and> prefix (written (crosscorrelations_str st ! x)) (written (crosscorrelations_str st' ! x)))"
proof (induction packets arbitrary: st)
  case Nil
  then show ?case by (simp add: accumulate_ticks_def)
next
  case (Cons p ps)
  let ?st1 = "st\<lparr>autocorrelations_str :=
                 map2 append_row (autocorrelations_str st) (autocorrelations p),
               crosscorrelations_str :=
                 map2 append_row (crosscorrelations_str st) (crosscorrelations p)\<rparr>"
  have b: "wf_buffers env st" and wp: "wf_packet env p" and wps: "list_all (wf_packet env) ps"
    using Cons.prems by auto
  have 1: "accumulate env p st = Some ?st1" using accumulate_ok[OF b wp la lc] .
  have b1: "wf_buffers env ?st1" using accumulate_wf[OF b wp] .
  obtain st' where 2: "accumulate_ticks env ps ?st1 = Some st'"
    and b2: "wf_buffers env st'"
    and fr: "st' = ?st1\<lparr>autocorrelations_str := autocorrelations_str st',
                   crosscorrelations_str := crosscorrelations_str st'\<rparr>"
    and au: "\<forall>x<nlines env.
            sizes (autocorrelations_str st' ! x) ! 1
              = sizes (autocorrelations_str ?st1 ! x) ! 1 + int (length ps)
            \<and> prefix (written (autocorrelations_str ?st1 ! x)) (written (autocorrelations_str st' ! x))"
    and cr: "\<forall>x<nbaselines env.
            sizes (crosscorrelations_str st' ! x) ! 1
              = sizes (crosscorrelations_str ?st1 ! x) ! 1 + int (length ps)
            \<and> prefix (written (crosscorrelations_str ?st1 ! x)) (written (crosscorrelations_str st' ! x))"
    using Cons.IH[OF b1 wps] by blast
  have run: "accumulate_ticks env (p # ps) st = Some st'"
    using 1 2 by (simp add: accumulate_ticks_def)
  have fr': "st' = st\<lparr>autocorrelations_str := autocorrelations_str st',
                   crosscorrelations_str := crosscorrelations_str st'\<rparr>"
    using fr by (metis (no_types, lifting) AHP_XC.surjective AHP_XC.update_convs(10,11))
  have au': "sizes (autocorrelations_str st' ! x) ! 1
              = sizes (autocorrelations_str st ! x) ! 1 + int (length (p # ps))
            \<and> prefix (written (autocorrelations_str st ! x)) (written (autocorrelations_str st' ! x))"
    if x: "x < nlines env" for x
  proof -
    have ws: "wf_stream (int (autocorrelator_lagsize env)) (autocorrelations_str st ! x)"
      and wsm: "wf_sample (int (autocorrelator_lagsize env)) (autocorrelations p ! x)"
      and l1: "x < length (autocorrelations_str st)" and l2: "x < length (autocorrelations p)"
      using b wp x by (auto simp: wf_buffers_def wf_packet_def list_all_length)
    have e: "autocorrelations_str ?st1 ! x = append_row (autocorrelations_str st ! x) (autocorrelations p ! x)"
      using l1 l2 by simp
    have h: "sizes (autocorrelations_str ?st1 ! x) ! 1 = sizes (autocorrelations_str st ! x) ! 1 + 1"
      unfolding e by (simp add: append_row_sizes)
    have pr: "prefix (written (autocorrelations_str st ! x)) (written (autocorrelations_str ?st1 ! x))"
      unfolding e using written_append_row[OF ws wsm] .
    show ?thesis using au x h pr by (auto intro: prefix_order.trans)
  qed
  have cr': "sizes (crosscorrelations_str st' ! x) ! 1
              = sizes (crosscorrelations_str st ! x) ! 1 + int (length (p # ps))
            \<and> prefix (written (crosscorrelations_str st ! x)) (written (crosscorrelations_str st' ! x))"
    if x: "x < nbaselines env" for x
  proof -
    have ws: "wf_stream (int (crosscorrelator_lagsize env * 2 - 1)) (crosscorrelations_str st ! x)"
      and wsm: "wf_sample (int (crosscorrelator_lagsize env * 2 - 1)) (crosscorrelations p ! x)"
      and l1: "x < length (crosscorrelations_str st)" and l2: "x < length (crosscorrelations p)"
      using b wp x by (auto simp: wf_buffers_def wf_packet_def list_all_length)
    have e: "crosscorrelations_str ?st1 ! x = append_row (crosscorrelations_str st ! x) (crosscorrelations p ! x)"
      using l1 l2 by simp
    have h: "sizes (crosscorrelations_str ?st1 ! x) ! 1 = sizes (crosscorrelations_str st ! x) ! 1 + 1"
      unfolding e by (simp add: append_row_sizes)
    have pr: "prefix (written (crosscorrelations_str st ! x)) (written (crosscorrelations_str ?st1 ! x))"
      unfolding e using written_append_row[OF ws wsm] .
    show ?thesis using cr x h pr by (auto intro: prefix_order.trans)
  qed
  show ?case using run b2 fr' au' cr' by blast
qed

subsection \<open>The phase centre and the reference line\<close>

lemma vsum_snoc: "vsum (vs @ [v]) = vadd (vsum vs) v"
  by (simp add: vsum_def)

lemma vsum_Nil: "vsum [] = (0, 0, 0)"
  by (simp add: vsum_def)

lemma vsum_components:
  "vsum vs = (sum_list (map fst vs), sum_list (map (\<lambda>v. fst (snd v)) vs),
              sum_list (map (\<lambda>v. snd (snd v)) vs))"
proof (induction vs rule: rev_induct)
  case Nil
  then show ?case by (simp add: vsum_Nil)
next
  case (snoc v vs)
  obtain a b c where v: "v = (a, b, c)" by (cases v) auto
  show ?case by (simp add: vsum_snoc snoc.IH v)
qed

lemma filter_upt_Suc:
  "filter P [0..<Suc n] = (if P n then filter P [0..<n] @ [n] else filter P [0..<n])"
  by simp

lemma center_loop:
  assumes "n \<le> length (lineEnable st)" and "n \<le> length (lineLocation st)"
  shows "foldM (center_step st) [0..<n] ((0, 0, 0), - 1, 1)
     = Some (case filter (\<lambda>x. lineEnable st ! x) [0..<n] of
               [] \<Rightarrow> ((0, 0, 0), - 1, 1)
             | f # rest \<Rightarrow>
                 (vsum (map (\<lambda>x. vsub (lineLocation st ! x) (lineLocation st ! f)) rest),
                  int f, 1 + int (length rest)))"
  using assms
proof (induction n)
  case 0
  then show ?case by simp
next
  case (Suc n)
  let ?E = "filter (\<lambda>x. lineEnable st ! x) [0..<n]"
  have n1: "n < length (lineEnable st)" and n2: "n < length (lineLocation st)"
    using Suc.prems by auto
  have ih: "foldM (center_step st) [0..<n] ((0, 0, 0), - 1, 1)
     = Some (case ?E of
               [] \<Rightarrow> ((0, 0, 0), - 1, 1)
             | f # rest \<Rightarrow>
                 (vsum (map (\<lambda>x. vsub (lineLocation st ! x) (lineLocation st ! f)) rest),
                  int f, 1 + int (length rest)))"
    using Suc by simp
  show ?case
  proof (cases "lineEnable st ! n")
    case False
    then show ?thesis
      using n1 by (subst foldM_upt_Suc) (simp add: ih center_step_def nth_opt_def split: list.splits)
  next
    case en: True
    show ?thesis
    proof (cases ?E)
      case Nil
      then show ?thesis
        using n1 en by (subst foldM_upt_Suc) (simp add: ih center_step_def nth_opt_def vsum_Nil)
    next
      case (Cons f rest)
      have "f \<in> set ?E" using Cons by simp
      then have f: "f < length (lineLocation st)" using n2 by auto
      show ?thesis
        using n1 n2 en f Cons
        by (subst foldM_upt_Suc)
           (simp add: ih center_step_def nth_opt_def nth_int_def vsum_snoc)
    qed
  qed
qed

lemma sum_shift:
  fixes g :: "nat \<Rightarrow> real"
  shows "(\<Sum>x\<leftarrow>xs. g x - c) = sum_list (map g xs) - real (length xs) * c"
  by (induction xs) (auto simp: algebra_simps)

lemma mean_shift:
  fixes g :: "nat \<Rightarrow> real"
  shows "(\<Sum>x\<leftarrow>rest. g x - g f) / (1 + real (length rest)) + g f
     = (g f + sum_list (map g rest)) / (1 + real (length rest))"
proof -
  have k: "1 + real (length rest) \<noteq> 0" by (simp add: add_nonneg_eq_0_iff)
  show ?thesis unfolding sum_shift using k by (simp add: field_simps)
qed

lemma array_center_mean:
  assumes l1: "length (lineEnable st) = nlines env" and l2: "length (lineLocation st) = nlines env"
    and en: "enabled_lines env st \<noteq> []"
  shows "array_center env st = Some (mean_position env st)"
proof -
  obtain f rest where E: "filter (\<lambda>x. lineEnable st ! x) [0..<nlines env] = f # rest"
    using en by (cases "enabled_lines env st") (auto simp: enabled_lines_def)
  have "f \<in> set (filter (\<lambda>x. lineEnable st ! x) [0..<nlines env])" using E by simp
  then have f: "f < length (lineLocation st)" using l2 by auto
  have loop: "foldM (center_step st) [0..<nlines env] ((0, 0, 0), - 1, 1)
     = Some (vsum (map (\<lambda>x. vsub (lineLocation st ! x) (lineLocation st ! f)) rest),
                  int f, 1 + int (length rest))"
    using center_loop[of "nlines env" st] l1 l2 E by simp
  obtain a b c where pf: "lineLocation st ! f = (a, b, c)" by (cases "lineLocation st ! f") auto
  have vs: "vsub v (a, b, c) = (fst v - a, fst (snd v) - b, snd (snd v) - c)" for v
    by (cases v) auto
  have "vadd (vdiv (vsum (map (\<lambda>x. vsub (lineLocation st ! x) (lineLocation st ! f)) rest))
                   (real_of_int (1 + int (length rest)))) (lineLocation st ! f)
        = vdiv (vsum (map (\<lambda>x. lineLocation st ! x) (f # rest))) (real (length (f # rest)))"
    using mean_shift[of "\<lambda>x. fst (lineLocation st ! x)" f rest]
          mean_shift[of "\<lambda>x. fst (snd (lineLocation st ! x))" f rest]
          mean_shift[of "\<lambda>x. snd (snd (lineLocation st ! x))" f rest]
    by (simp add: vsum_components pf vs comp_def add.commute)
  then show ?thesis
    using loop f by (simp add: array_center_def nth_int_def nth_opt_def mean_position_def
        enabled_lines_def E)
qed

lemma array_center_none:
  assumes l1: "length (lineEnable st) = nlines env" and l2: "length (lineLocation st) = nlines env"
    and en: "enabled_lines env st = []"
  shows "array_center env st = None"
  using center_loop[of "nlines env" st] l1 l2 en
  by (simp add: array_center_def enabled_lines_def nth_int_def)

lemma farest_step_enabled:
  assumes "x < length (lineEnable st)" and "x < length (lineLocation st)" and "x < length cen"
    and "lineEnable st ! x"
  shows "farest_step env st c x (cen, farest, dmax)
     = Some (cen[x := vsub (lineLocation st ! x) c],
             if ratio env st c x > dmax then x else farest,
             if ratio env st c x > dmax then ratio env st c x else dmax)"
  using assms by (simp add: farest_step_def nth_opt_def upd_opt_def ratio_def Let_def)

lemma farest_step_disabled:
  assumes "x < length (lineEnable st)" and "\<not> lineEnable st ! x"
  shows "farest_step env st c x (cen, farest, dmax) = Some (cen, farest, dmax)"
  using assms by (simp add: farest_step_def nth_opt_def)

lemma farest_loop:
  assumes "n \<le> length (lineEnable st)" and "n \<le> length (lineLocation st)" and "n \<le> length cen0"
  shows "\<exists>cen farest dmax.
      foldM (farest_step env st c) [0..<n] (cen0, 0, 0) = Some (cen, farest, dmax)
      \<and> length cen = length cen0
      \<and> (\<forall>x<length cen0. cen ! x = (if x < n \<and> lineEnable st ! x
                                       then vsub (lineLocation st ! x) c else cen0 ! x))
      \<and> 0 \<le> dmax
      \<and> (\<forall>x<n. lineEnable st ! x \<longrightarrow> ratio env st c x \<le> dmax)
      \<and> (if 0 < dmax
          then farest < n \<and> lineEnable st ! farest \<and> ratio env st c farest = dmax
               \<and> (\<forall>x<farest. lineEnable st ! x \<longrightarrow> ratio env st c x < dmax)
          else farest = 0)"
  using assms
proof (induction n)
  case 0
  then show ?case by simp
next
  case (Suc n)
  have n1: "n < length (lineEnable st)" and n2: "n < length (lineLocation st)"
    and n3: "n < length cen0" using Suc.prems by auto
  obtain cen farest dmax where
    run: "foldM (farest_step env st c) [0..<n] (cen0, 0, 0) = Some (cen, farest, dmax)"
    and len: "length cen = length cen0"
    and cont: "\<forall>x<length cen0. cen ! x = (if x < n \<and> lineEnable st ! x
                                       then vsub (lineLocation st ! x) c else cen0 ! x)"
    and d0: "0 \<le> dmax"
    and ub: "\<forall>x<n. lineEnable st ! x \<longrightarrow> ratio env st c x \<le> dmax"
    and arg: "if 0 < dmax
          then farest < n \<and> lineEnable st ! farest \<and> ratio env st c farest = dmax
               \<and> (\<forall>x<farest. lineEnable st ! x \<longrightarrow> ratio env st c x < dmax)
          else farest = 0"
    using Suc.IH Suc.prems by (auto simp del: split_paired_Ex)
  show ?case
  proof (cases "lineEnable st ! n")
    case False
    have st: "farest_step env st c n (cen, farest, dmax) = Some (cen, farest, dmax)"
      using farest_step_disabled[OF n1 False] .
    have run': "foldM (farest_step env st c) [0..<Suc n] (cen0, 0, 0) = Some (cen, farest, dmax)"
      by (subst foldM_upt_Suc) (simp add: run st)
    have cont': "\<forall>x<length cen0. cen ! x = (if x < Suc n \<and> lineEnable st ! x
                                       then vsub (lineLocation st ! x) c else cen0 ! x)"
      using cont False by (auto simp: less_Suc_eq)
    have ub': "\<forall>x<Suc n. lineEnable st ! x \<longrightarrow> ratio env st c x \<le> dmax"
      using ub False by (auto simp: less_Suc_eq)
    have arg': "if 0 < dmax
          then farest < Suc n \<and> lineEnable st ! farest \<and> ratio env st c farest = dmax
               \<and> (\<forall>x<farest. lineEnable st ! x \<longrightarrow> ratio env st c x < dmax)
          else farest = 0"
      using arg by (auto split: if_splits)
    show ?thesis using run' len cont' d0 ub' arg' by blast
  next
    case en: True
    have n3': "n < length cen" using n3 len by simp
    let ?r = "ratio env st c n"
    let ?cen = "cen[n := vsub (lineLocation st ! n) c]"
    let ?far = "if ?r > dmax then n else farest"
    let ?dm = "if ?r > dmax then ?r else dmax"
    have st: "farest_step env st c n (cen, farest, dmax) = Some (?cen, ?far, ?dm)"
      using farest_step_enabled[OF n1 n2 n3' en] .
    have run': "foldM (farest_step env st c) [0..<Suc n] (cen0, 0, 0) = Some (?cen, ?far, ?dm)"
      by (subst foldM_upt_Suc) (simp add: run st)
    have len': "length ?cen = length cen0" using len by simp
    have cont': "\<forall>x<length cen0. ?cen ! x = (if x < Suc n \<and> lineEnable st ! x
                                       then vsub (lineLocation st ! x) c else cen0 ! x)"
    proof (intro allI impI)
      fix x assume x: "x < length cen0"
      show "?cen ! x = (if x < Suc n \<and> lineEnable st ! x
                                       then vsub (lineLocation st ! x) c else cen0 ! x)"
      proof (cases "x = n")
        case True
        then show ?thesis using en n3' by simp
      next
        case False
        then show ?thesis using cont x by (simp add: less_Suc_eq)
      qed
    qed
    have d0': "0 \<le> ?dm" using d0 by auto
    have ub': "\<forall>x<Suc n. lineEnable st ! x \<longrightarrow> ratio env st c x \<le> ?dm"
      using ub by (auto simp: less_Suc_eq)
    have arg': "if 0 < ?dm
          then ?far < Suc n \<and> lineEnable st ! ?far \<and> ratio env st c ?far = ?dm
               \<and> (\<forall>x<?far. lineEnable st ! x \<longrightarrow> ratio env st c x < ?dm)
          else ?far = 0"
    proof (cases "?r > dmax")
      case True
      then show ?thesis using en ub d0 by auto
    next
      case False
      then show ?thesis using arg by (auto split: if_splits)
    qed
    show ?thesis using run' len' cont' d0' ub' arg' by blast
  qed
qed

lemma pair_step_ok:
  assumes "x < length (lineEnable st)" and "y < length (lineEnable st)"
    and "x < length dl" and "y < length dl" and "idx < length (baselines st)"
  shows "\<exists>dl' extra. pair_step env st farest (x, y) (dl, cmds, idx) = Some (dl', cmds @ extra, idx + 1)
           \<and> length dl' = length dl"
proof (cases "lineEnable st ! x \<and> lineEnable st ! y")
  case False
  then have "pair_step env st farest (x, y) (dl, cmds, idx) = Some (dl, cmds @ [], idx + 1)"
    using assms by (auto simp: pair_step_def nth_opt_def)
  then show ?thesis by blast
next
  case True
  show ?thesis
  proof (cases "y = farest")
    case yf: True
    show ?thesis
    proof (cases "x = farest")
      case True
      then show ?thesis
        using assms \<open>lineEnable st ! x \<and> lineEnable st ! y\<close> yf
        by (simp add: pair_step_def nth_opt_def upd_opt_def Let_def)
    next
      case False
      then show ?thesis
        using assms \<open>lineEnable st ! x \<and> lineEnable st ! y\<close> yf
        by (simp add: pair_step_def nth_opt_def upd_opt_def Let_def)
    qed
  next
    case ynf: False
    show ?thesis
    proof (cases "x = farest")
      case True
      then show ?thesis
        using assms \<open>lineEnable st ! x \<and> lineEnable st ! y\<close> ynf
        by (simp add: pair_step_def nth_opt_def upd_opt_def Let_def)
    next
      case False
      then have "pair_step env st farest (x, y) (dl, cmds, idx) = Some (dl, cmds @ [], idx + 1)"
        using assms \<open>lineEnable st ! x \<and> lineEnable st ! y\<close> ynf
        by (simp add: pair_step_def nth_opt_def upd_opt_def Let_def)
      then show ?thesis by blast
    qed
  qed
qed

lemma pair_loop_ok:
  assumes "\<forall>(x, y)\<in>set ps. x < length (lineEnable st) \<and> y < length (lineEnable st)
                           \<and> x < length dl \<and> y < length dl"
    and "idx + length ps \<le> length (baselines st)"
  shows "\<exists>dl' extra. foldM (pair_step env st farest) ps (dl, cmds, idx)
            = Some (dl', cmds @ extra, idx + length ps)
           \<and> length dl' = length dl"
  using assms
proof (induction ps arbitrary: dl cmds idx)
  case Nil
  have "foldM (pair_step env st farest) [] (dl, cmds, idx) = Some (dl, cmds @ [], idx + length [])"
    by simp
  then show ?case by blast
next
  case (Cons p ps)
  obtain x y where p: "p = (x, y)" by (cases p) auto
  have b: "x < length (lineEnable st)" "y < length (lineEnable st)" "x < length dl" "y < length dl"
    "idx < length (baselines st)"
    using Cons.prems p by auto
  obtain dl1 e1 where s1: "pair_step env st farest (x, y) (dl, cmds, idx) = Some (dl1, cmds @ e1, idx + 1)"
    and l1: "length dl1 = length dl"
    using pair_step_ok[OF b] by blast
  have "\<forall>(x, y)\<in>set ps. x < length (lineEnable st) \<and> y < length (lineEnable st)
                           \<and> x < length dl1 \<and> y < length dl1"
    using Cons.prems(1) l1 by auto
  moreover have "idx + 1 + length ps \<le> length (baselines st)" using Cons.prems(2) by simp
  ultimately obtain dl2 e2 where
    s2: "foldM (pair_step env st farest) ps (dl1, cmds @ e1, idx + 1)
            = Some (dl2, (cmds @ e1) @ e2, idx + 1 + length ps)"
    and l2: "length dl2 = length dl1"
    using Cons.IH[of dl1 "idx + 1" "cmds @ e1"] by blast
  have "foldM (pair_step env st farest) (p # ps) (dl, cmds, idx)
            = Some (dl2, cmds @ (e1 @ e2), idx + length (p # ps))"
    using s1 s2 p by simp
  then show ?case using l1 l2 by (metis)
qed

lemma pairs_bound: "(x, y) \<in> set (pairs n) \<Longrightarrow> x < y \<and> y < n"
  by (auto simp: pairs_def)

lemma delay_compensation_ok:
  assumes wf: "wf_lines env st" and en: "enabled_lines env st \<noteq> []"
  shows "\<exists>st' farest dmax extra.
     delay_compensation env st = Some st'
     \<and> array_center env st = Some (mean_position env st)
     \<and> (\<forall>x<nlines env. center st' ! x =
           (if lineEnable st ! x then vsub (lineLocation st ! x) (mean_position env st)
            else center st ! x))
     \<and> length (center st') = nlines env \<and> length (delay st') = nlines env
     \<and> hw st' = hw st @ [Set_channel_auto farest 0 1 1, Set_channel_cross farest 0 1 1] @ extra
     \<and> st' = st\<lparr>center := center st', delay := delay st', hw := hw st'\<rparr>
     \<and> 0 \<le> dmax
     \<and> (\<forall>x<nlines env. lineEnable st ! x \<longrightarrow> ratio env st (mean_position env st) x \<le> dmax)
     \<and> (if 0 < dmax
         then farest < nlines env \<and> lineEnable st ! farest
              \<and> ratio env st (mean_position env st) farest = dmax
              \<and> (\<forall>x<farest. lineEnable st ! x \<longrightarrow> ratio env st (mean_position env st) x < dmax)
         else farest = 0)"
proof -
  let ?c = "mean_position env st"
  have l: "length (lineEnable st) = nlines env" "length (lineLocation st) = nlines env"
    "length (center st) = nlines env" "length (delay st) = nlines env"
    "length (pairs (nlines env)) \<le> length (baselines st)"
    using wf by (auto simp: wf_lines_def)
  have ac: "array_center env st = Some ?c" using array_center_mean[OF l(1) l(2) en] .
  have pos: "0 < nlines env"
    using en by (cases "nlines env") (auto simp: enabled_lines_def)
  obtain cen farest dmax where
    run: "foldM (farest_step env st ?c) [0..<nlines env] (center st, 0, 0) = Some (cen, farest, dmax)"
    and len: "length cen = length (center st)"
    and cont: "\<forall>x<length (center st). cen ! x = (if x < nlines env \<and> lineEnable st ! x
                                       then vsub (lineLocation st ! x) ?c else center st ! x)"
    and d0: "0 \<le> dmax"
    and ub: "\<forall>x<nlines env. lineEnable st ! x \<longrightarrow> ratio env st ?c x \<le> dmax"
    and arg: "if 0 < dmax
          then farest < nlines env \<and> lineEnable st ! farest \<and> ratio env st ?c farest = dmax
               \<and> (\<forall>x<farest. lineEnable st ! x \<longrightarrow> ratio env st ?c x < dmax)
          else farest = 0"
    using farest_loop[of "nlines env" st "center st" env ?c] l by (auto simp del: split_paired_Ex)
  have fl: "farest < length (delay st)" using arg pos l(4) by (auto split: if_splits)
  have up: "upd_opt (delay st) farest 0 = Some ((delay st)[farest := 0])"
    using fl by (simp add: upd_opt_def)
  have "\<forall>(x, y)\<in>set (pairs (nlines env)). x < length (lineEnable st) \<and> y < length (lineEnable st)
          \<and> x < length ((delay st)[farest := 0]) \<and> y < length ((delay st)[farest := 0])"
    using pairs_bound[of _ _ "nlines env"] l by fastforce
  moreover have "0 + length (pairs (nlines env)) \<le> length (baselines st)" using l(5) by simp
  ultimately obtain dl' extra where
    pl: "foldM (pair_step env st farest) (pairs (nlines env))
           ((delay st)[farest := 0],
            hw st @ [Set_channel_auto farest 0 1 1, Set_channel_cross farest 0 1 1], 0)
         = Some (dl', (hw st @ [Set_channel_auto farest 0 1 1, Set_channel_cross farest 0 1 1]) @ extra,
                 0 + length (pairs (nlines env)))"
    and ldl: "length dl' = length ((delay st)[farest := 0])"
    using pair_loop_ok[of "pairs (nlines env)" st "(delay st)[farest := 0]" 0 env farest
        "hw st @ [Set_channel_auto farest 0 1 1, Set_channel_cross farest 0 1 1]"] by blast
  let ?st' = "st\<lparr>center := cen, delay := dl',
      hw := (hw st @ [Set_channel_auto farest 0 1 1, Set_channel_cross farest 0 1 1]) @ extra\<rparr>"
  have dc: "delay_compensation env st = Some ?st'"
    using ac run up pl by (simp add: delay_compensation_def)
  have c1: "\<forall>x<nlines env. center ?st' ! x =
           (if lineEnable st ! x then vsub (lineLocation st ! x) ?c else center st ! x)"
    using cont l(3) by simp
  have c2: "length (center ?st') = nlines env \<and> length (delay ?st') = nlines env"
    using len ldl l by simp
  have c3: "hw ?st' = hw st @ [Set_channel_auto farest 0 1 1, Set_channel_cross farest 0 1 1] @ extra"
    by simp
  have c4: "?st' = st\<lparr>center := center ?st', delay := delay ?st', hw := hw ?st'\<rparr>" by simp
  show ?thesis
    using dc ac c1 c2 c3 c4 d0 ub arg by blast
qed

subsection \<open>The commands of the pair loop\<close>

lemma clamp_clocks_range:
  assumes "0 < ds"
  shows "clamp_clocks ds v \<le> ds - 1"
proof -
  have ne: "ds \<noteq> 0" using assms by auto
  have u: "unat (ds - 1) = unat ds - 1" using ne by (simp add: unat_minus_one)
  show ?thesis
  proof (cases "0 < v \<and> v < ds")
    case True
    then have "unat v < unat ds" by (simp add: word_less_nat_alt)
    then have "unat v \<le> unat (ds - 1)" using u by simp
    then show ?thesis using True by (simp add: clamp_clocks_def word_le_nat_alt)
  next
    case False
    then show ?thesis by (auto simp: clamp_clocks_def)
  qed
qed

lemma pair_step_cmds:
  assumes "x < length (lineEnable st)" and "y < length (lineEnable st)"
    and "x < length dl" and "y < length dl" and "idx < length (baselines st)"
  shows "\<exists>dl'. pair_step env st farest (x, y) (dl, cmds, idx)
             = Some (dl', cmds @ pair_cmds env st farest ((x, y), idx), idx + 1)
           \<and> length dl' = length dl"
  using assms
  by (auto simp: pair_step_def pair_cmds_def tick_count_def nth_opt_def upd_opt_def Let_def)

lemma pair_loop_cmds:
  assumes "\<forall>(x, y)\<in>set ps. x < length (lineEnable st) \<and> y < length (lineEnable st)
                           \<and> x < length dl \<and> y < length dl"
    and "idx + length ps \<le> length (baselines st)"
  shows "\<exists>dl'. foldM (pair_step env st farest) ps (dl, cmds, idx)
            = Some (dl', cmds @ concat (map (pair_cmds env st farest) (zip ps [idx..<idx + length ps])),
                    idx + length ps)
           \<and> length dl' = length dl"
  using assms
proof (induction ps arbitrary: dl cmds idx)
  case Nil
  then show ?case by simp
next
  case (Cons p ps)
  obtain x y where p: "p = (x, y)" by (cases p) auto
  have b: "x < length (lineEnable st)" "y < length (lineEnable st)" "x < length dl" "y < length dl"
    "idx < length (baselines st)"
    using Cons.prems p by auto
  obtain dl1 where s1: "pair_step env st farest (x, y) (dl, cmds, idx)
        = Some (dl1, cmds @ pair_cmds env st farest ((x, y), idx), idx + 1)"
    and l1: "length dl1 = length dl"
    using pair_step_cmds[OF b] by blast
  have "\<forall>(x, y)\<in>set ps. x < length (lineEnable st) \<and> y < length (lineEnable st)
                           \<and> x < length dl1 \<and> y < length dl1"
    using Cons.prems(1) l1 by auto
  moreover have "idx + 1 + length ps \<le> length (baselines st)" using Cons.prems(2) by simp
  ultimately obtain dl2 where
    s2: "foldM (pair_step env st farest) ps (dl1, cmds @ pair_cmds env st farest ((x, y), idx), idx + 1)
            = Some (dl2, (cmds @ pair_cmds env st farest ((x, y), idx))
                       @ concat (map (pair_cmds env st farest) (zip ps [idx + 1..<idx + 1 + length ps])),
                    idx + 1 + length ps)"
    and l2: "length dl2 = length dl1"
    using Cons.IH[of dl1 "idx + 1" "cmds @ pair_cmds env st farest ((x, y), idx)"] by blast
  have z: "zip (p # ps) [idx..<idx + length (p # ps)]
         = (p, idx) # zip ps [idx + 1..<idx + 1 + length ps]"
  proof -
    have "[idx..<idx + length (p # ps)] = idx # [idx + 1..<idx + 1 + length ps]"
      using upt_conv_Cons[of idx "idx + Suc (length ps)"] by (simp del: upt_Suc)
    then show ?thesis by (simp del: upt_Suc)
  qed
  have "foldM (pair_step env st farest) (p # ps) (dl, cmds, idx)
            = Some (dl2, cmds @ concat (map (pair_cmds env st farest) (zip (p # ps) [idx..<idx + length (p # ps)])),
                    idx + length (p # ps))"
    unfolding z using s1 s2 p by simp
  then show ?case using l1 l2 by auto
qed

lemma pairs_mem: "x < y \<Longrightarrow> y < n \<Longrightarrow> (x, y) \<in> set (pairs n)"
  by (auto simp: pairs_def intro!: bexI[of _ x])

lemma pairs_bound2: "(x, y) \<in> set (pairs n) \<Longrightarrow> x < y \<and> y < n"
  by (auto simp: pairs_def)

lemma cross_in_pair_cmds:
  assumes "Set_channel_cross x v a b \<in> set (pair_cmds env st farest ((p, q), idx))"
  shows "lineEnable st ! p \<and> lineEnable st ! q \<and> a = 1 \<and> b = 1
       \<and> ((q = farest \<and> x = p) \<or> (p = farest \<and> x = q))
       \<and> v = tick_count env st idx"
  using assms by (auto simp: pair_cmds_def split: if_splits)

lemma pair_cmds_has_cross:
  assumes "lineEnable st ! p" and "lineEnable st ! q"
  shows "q = farest \<Longrightarrow> Set_channel_cross p (tick_count env st idx) 1 1
            \<in> set (pair_cmds env st farest ((p, q), idx))"
    and "p = farest \<Longrightarrow> Set_channel_cross q (tick_count env st idx) 1 1
            \<in> set (pair_cmds env st farest ((p, q), idx))"
  using assms by (auto simp: pair_cmds_def)

lemma delay_compensation_tick_counts:
  assumes wf: "wf_lines env st" and en: "enabled_lines env st \<noteq> []"
  shows "\<exists>st' farest extra.
     delay_compensation env st = Some st'
     \<and> hw st' = hw st @ [Set_channel_auto farest 0 1 1, Set_channel_cross farest 0 1 1] @ extra
     \<and> (\<forall>x v a b. Set_channel_cross x v a b \<in> set extra \<longrightarrow>
           x < nlines env \<and> lineEnable st ! x \<and> x \<noteq> farest \<and> lineEnable st ! farest
           \<and> (\<exists>idx<length (pairs (nlines env)). v = tick_count env st idx)
           \<and> (0 < delaysize env \<longrightarrow> v \<le> delaysize env - 1))
     \<and> (farest < nlines env \<and> lineEnable st ! farest \<longrightarrow>
           (\<forall>x<nlines env. lineEnable st ! x \<and> x \<noteq> farest \<longrightarrow>
              (\<exists>v. Set_channel_cross x v 1 1 \<in> set extra)))"
proof -
  let ?c = "mean_position env st"
  let ?n = "nlines env"
  have l: "length (lineEnable st) = ?n" "length (lineLocation st) = ?n"
    "length (center st) = ?n" "length (delay st) = ?n"
    "length (pairs ?n) \<le> length (baselines st)"
    using wf by (auto simp: wf_lines_def)
  have ac: "array_center env st = Some ?c" using array_center_mean[OF l(1) l(2) en] .
  have pos: "0 < ?n"
    using en by (cases "?n") (auto simp: enabled_lines_def)
  obtain cen farest dmax where
    run: "foldM (farest_step env st ?c) [0..<?n] (center st, 0, 0) = Some (cen, farest, dmax)"
    and arg: "if 0 < dmax
          then farest < ?n \<and> lineEnable st ! farest \<and> ratio env st ?c farest = dmax
               \<and> (\<forall>x<farest. lineEnable st ! x \<longrightarrow> ratio env st ?c x < dmax)
          else farest = 0"
    using farest_loop[of ?n st "center st" env ?c] l by (auto simp del: split_paired_Ex)
  have fl: "farest < length (delay st)" using arg pos l(4) by (auto split: if_splits)
  have up: "upd_opt (delay st) farest 0 = Some ((delay st)[farest := 0])"
    using fl by (simp add: upd_opt_def)
  let ?ps = "pairs ?n"
  let ?zs = "zip ?ps [0..<0 + length ?ps]"
  let ?extra = "concat (map (pair_cmds env st farest) ?zs)"
  have "\<forall>(x, y)\<in>set ?ps. x < length (lineEnable st) \<and> y < length (lineEnable st)
          \<and> x < length ((delay st)[farest := 0]) \<and> y < length ((delay st)[farest := 0])"
    using pairs_bound[of _ _ ?n] l by fastforce
  moreover have "0 + length ?ps \<le> length (baselines st)" using l(5) by simp
  ultimately obtain dl' where
    pl: "foldM (pair_step env st farest) ?ps
           ((delay st)[farest := 0],
            hw st @ [Set_channel_auto farest 0 1 1, Set_channel_cross farest 0 1 1], 0)
         = Some (dl', (hw st @ [Set_channel_auto farest 0 1 1, Set_channel_cross farest 0 1 1]) @ ?extra,
                 0 + length ?ps)"
    using pair_loop_cmds[of ?ps st "(delay st)[farest := 0]" 0 env farest
        "hw st @ [Set_channel_auto farest 0 1 1, Set_channel_cross farest 0 1 1]"] by blast
  let ?st' = "st\<lparr>center := cen, delay := dl',
      hw := (hw st @ [Set_channel_auto farest 0 1 1, Set_channel_cross farest 0 1 1]) @ ?extra\<rparr>"
  have dc: "delay_compensation env st = Some ?st'"
    using ac run up pl by (simp add: delay_compensation_def)
  have c1: "hw ?st' = hw st @ [Set_channel_auto farest 0 1 1, Set_channel_cross farest 0 1 1] @ ?extra"
    by simp
  have c2: "x < ?n \<and> lineEnable st ! x \<and> x \<noteq> farest \<and> lineEnable st ! farest
           \<and> (\<exists>idx<length ?ps. v = tick_count env st idx)
           \<and> (0 < delaysize env \<longrightarrow> v \<le> delaysize env - 1)"
    if m: "Set_channel_cross x v a b \<in> set ?extra" for x v a b
  proof -
    obtain p q idx where z: "((p, q), idx) \<in> set ?zs"
      and c: "Set_channel_cross x v a b \<in> set (pair_cmds env st farest ((p, q), idx))"
      using m by auto
    have pq: "(p, q) \<in> set ?ps" and i: "idx < length ?ps"
      using z by (auto dest: set_zip_leftD set_zip_rightD)
    have b: "p < q" "q < ?n" using pairs_bound2[OF pq] by auto
    have f: "lineEnable st ! p \<and> lineEnable st ! q
       \<and> ((q = farest \<and> x = p) \<or> (p = farest \<and> x = q))
       \<and> v = tick_count env st idx"
      using cross_in_pair_cmds[OF c] by simp
    have r: "0 < delaysize env \<longrightarrow> v \<le> delaysize env - 1"
      using f clamp_clocks_range by (simp add: tick_count_def)
    show ?thesis using f b i r by auto
  qed
  have c3: "\<exists>v. Set_channel_cross x v 1 1 \<in> set ?extra"
    if f: "farest < ?n" "lineEnable st ! farest" and x: "x < ?n" "lineEnable st ! x" "x \<noteq> farest" for x
  proof (cases "x < farest")
    case True
    then have pq: "(x, farest) \<in> set ?ps" using f(1) by (intro pairs_mem)
    then obtain idx where z: "((x, farest), idx) \<in> set ?zs"
      using in_set_impl_in_set_zip1[of ?ps "[0..<0 + length ?ps]" "(x, farest)"] by auto
    have "Set_channel_cross x (tick_count env st idx) 1 1
            \<in> set (pair_cmds env st farest ((x, farest), idx))"
      using pair_cmds_has_cross(1)[OF x(2) f(2)] by simp
    then show ?thesis using z by auto
  next
    case False
    then have lt: "farest < x" using x(3) by simp
    then have pq: "(farest, x) \<in> set ?ps" using x(1) by (intro pairs_mem)
    then obtain idx where z: "((farest, x), idx) \<in> set ?zs"
      using in_set_impl_in_set_zip1[of ?ps "[0..<0 + length ?ps]" "(farest, x)"] by auto
    have "Set_channel_cross x (tick_count env st idx) 1 1
            \<in> set (pair_cmds env st farest ((farest, x), idx))"
      using pair_cmds_has_cross(2)[OF f(2) x(2)] by simp
    then show ?thesis using z by auto
  qed
  show ?thesis
    using dc c1 c2 c3 by (intro exI[of _ ?st'] exI[of _ farest] exI[of _ ?extra]) blast
qed

subsection \<open>What a pass of the reader loop leaves alone\<close>

lemma totals_frame:
  "totals env packet st = Some st' \<Longrightarrow>
     st' = st\<lparr>totalcounts := totalcounts st', totalcorrelations := totalcorrelations st'\<rparr>"
  by (auto simp: totals_def bind_eq_Some_conv)

lemma finalize_frame:
  "finalize env st = Some st' \<Longrightarrow>
     hw st' = hw st \<and> delay st' = delay st \<and> center st' = center st
     \<and> Altitude st' = Altitude st \<and> Azimuth st' = Azimuth st"
  by (auto simp: finalize_def bind_eq_Some_conv)

lemma plot_fill_frame:
  "plot_fill env packet st = Some st' \<Longrightarrow> st' = st\<lparr>plot_str := plot_str st'\<rparr>"
  by (auto simp: plot_fill_def bind_eq_Some_conv split: if_splits)

lemma accumulate_frame:
  "accumulate env packet st = Some st' \<Longrightarrow>
     st' = st\<lparr>autocorrelations_str := autocorrelations_str st',
               crosscorrelations_str := crosscorrelations_str st'\<rparr>"
  by (auto simp: accumulate_def accumulate_auto_def accumulate_cross_def bind_eq_Some_conv
           split: if_splits)

lemma pair_step_prefix:
  "pair_step env st farest p (dl, cmds, idx) = Some (dl', cmds', idx') \<Longrightarrow> \<exists>extra. cmds' = cmds @ extra"
  by (cases p) (auto simp: pair_step_def bind_eq_Some_conv Let_def split: if_splits)

lemma pair_loop_prefix:
  "foldM (pair_step env st farest) ps (dl, cmds, idx) = Some (dl', cmds', idx') \<Longrightarrow>
     \<exists>extra. cmds' = cmds @ extra"
proof (induction ps arbitrary: dl cmds idx)
  case Nil
  then show ?case by simp
next
  case (Cons p ps)
  obtain dl1 c1 i1 where s1: "pair_step env st farest p (dl, cmds, idx) = Some (dl1, c1, i1)"
    and s2: "foldM (pair_step env st farest) ps (dl1, c1, i1) = Some (dl', cmds', idx')"
    using Cons.prems by (auto split: option.splits)
  obtain e1 where "c1 = cmds @ e1" using pair_step_prefix[OF s1] by blast
  moreover obtain e2 where "cmds' = c1 @ e2" using Cons.IH[OF s2] by blast
  ultimately show ?case by simp
qed

lemma delay_compensation_commands:
  assumes "delay_compensation env st = Some st'"
  shows "\<exists>farest extra. hw st' = hw st @ [Set_channel_auto farest 0 1 1, Set_channel_cross farest 0 1 1] @ extra"
proof -
  obtain c cen farest dmax dl dl' cmds' idx where
    pl: "foldM (pair_step env st farest) (pairs (nlines env))
            (dl, hw st @ [Set_channel_auto farest 0 1 1, Set_channel_cross farest 0 1 1], 0)
         = Some (dl', cmds', idx)"
    and st': "st' = st\<lparr>center := cen, delay := dl', hw := cmds'\<rparr>"
    using assms by (auto simp: delay_compensation_def bind_eq_Some_conv)
  obtain extra where
    "cmds' = (hw st @ [Set_channel_auto farest 0 1 1, Set_channel_cross farest 0 1 1]) @ extra"
    using pair_loop_prefix[OF pl] by blast
  then show ?thesis using st' by auto
qed

lemma delay_compensation_frame:
  "delay_compensation env st = Some st' \<Longrightarrow>
     st' = st\<lparr>center := center st', delay := delay st', hw := hw st'\<rparr>"
  by (auto simp: delay_compensation_def bind_eq_Some_conv)

lemma integrate_frame:
  assumes "integrate env packet st = Some st'"
  shows "\<exists>st1. delay_compensation env
                 (st\<lparr>Altitude := fst (alt_az env), Azimuth := snd (alt_az env)\<rparr>) = Some st1
           \<and> hw st' = hw st1 \<and> delay st' = delay st1 \<and> center st' = center st1
           \<and> Altitude st' = fst (alt_az env) \<and> Azimuth st' = snd (alt_az env)"
proof -
  obtain st1 st2 where 1: "delay_compensation env
                 (st\<lparr>Altitude := fst (alt_az env), Azimuth := snd (alt_az env)\<rparr>) = Some st1"
    and 2: "plot_fill env packet st1 = Some st2" and 3: "accumulate env packet st2 = Some st'"
    using assms by (auto simp: integrate_def bind_eq_Some_conv)
  have z: "Altitude st1 = fst (alt_az env)" "Azimuth st1 = snd (alt_az env)"
    by (subst delay_compensation_frame[OF 1], simp)+
  have a: "hw st2 = hw st1" "delay st2 = delay st1" "center st2 = center st1"
    "Altitude st2 = Altitude st1" "Azimuth st2 = Azimuth st1"
    by (subst plot_fill_frame[OF 2], simp)+
  have b: "hw st' = hw st2" "delay st' = delay st2" "center st' = center st2"
    "Altitude st' = Altitude st2" "Azimuth st' = Azimuth st2"
    by (subst accumulate_frame[OF 3], simp)+
  show ?thesis using 1 z a b by simp
qed

subsection \<open>The streams at connection and the sample array\<close>

lemma Handshake_streams_wf:
  assumes "1 < autocorrelator_lagsize env" and "1 < crosscorrelator_lagsize env"
  shows "wf_buffers env (Handshake_streams env st)"
    and "\<forall>x<nlines env. sizes (autocorrelations_str (Handshake_streams env st) ! x) ! 1 = 1"
    and "\<forall>x<nbaselines env. sizes (crosscorrelations_str (Handshake_streams env st) ! x) ! 1 = 1"
proof -
  have w: "wf_stream w (new_stream w)" if "0 \<le> w" for w
    using that
    by (simp add: wf_stream_def new_stream_def dsp_stream_new_def dsp_stream_add_dim_def
        dsp_stream_alloc_buffer_def realloc_def)
  have h: "sizes (new_stream w) ! 1 = 1" for w
    by (simp add: new_stream_def dsp_stream_new_def dsp_stream_add_dim_def
        dsp_stream_alloc_buffer_def)
  show "wf_buffers env (Handshake_streams env st)"
    using assms w by (simp add: wf_buffers_def Handshake_streams_def list_all_length)
  show "\<forall>x<nlines env. sizes (autocorrelations_str (Handshake_streams env st) ! x) ! 1 = 1"
    using assms h by (simp add: Handshake_streams_def)
  show "\<forall>x<nbaselines env. sizes (crosscorrelations_str (Handshake_streams env st) ! x) ! 1 = 1"
    using assms h by (simp add: Handshake_streams_def)
qed

lemma ex_packet_wf: "wf_packet ex_env ex_packet"
  by (simp add: wf_packet_def wf_sample_def eval_defs)

lemma ex_state_wf_buffers: "wf_buffers ex_env (ex_state en)"
  by (simp add: wf_buffers_def wf_stream_def eval_defs list_all_length)

lemma ex_state_wf_lines: "wf_lines ex_env (ex_state [a, b, c])"
  by (simp add: wf_lines_def eval_defs pairs_def upt_rec)

lemma Callback_idle:
  assumes "\<not> InIntegration st" and "Callback env (Ready packet) st = Some s"
  shows "autocorrelations_str s = autocorrelations_str st
       \<and> crosscorrelations_str s = crosscorrelations_str st
       \<and> autocorrelationsB s = autocorrelationsB st
       \<and> crosscorrelationsB s = crosscorrelationsB st
       \<and> \<not> InIntegration s"
  using assms by (auto simp: Callback_def Callback_packet_def totals_def bind_eq_Some_conv)

section \<open>Starting an integration while one is active\<close>

text \<open>
  C6: for every duration, \<open>StartIntegration\<close> called while an integration is active returns
  false and leaves the state as it was: the requested duration, the start timestamp, the
  time left computed from them at any later clock, and the integrating flag.
\<close>

theorem StartIntegration_while_integrating:
  "InIntegration st \<Longrightarrow>
     StartIntegration env duration st = (False, st)
     \<and> IntegrationRequest (snd (StartIntegration env duration st)) = IntegrationRequest st
     \<and> ExpStart (snd (StartIntegration env duration st)) = ExpStart st
     \<and> InIntegration (snd (StartIntegration env duration st))
     \<and> CalcTimeLeft env' (snd (StartIntegration env duration st)) = CalcTimeLeft env' st"
  by (simp add: StartIntegration_def)

theorem StartIntegration_while_integrating_witness:
  "InIntegration (ex_state [True, True, True])
   \<and> StartIntegration ex_env 3 (ex_state [True, True, True]) = (False, ex_state [True, True, True])"
proof -
  have h: "InIntegration (ex_state [True, True, True])"
    by (simp add: ex_state_def ex_base_def Handshake_streams_def)
  show ?thesis using h StartIntegration_while_integrating [OF h, of ex_env 3] by simp
qed

section \<open>Delay compensation: the phase centre\<close>

text \<open>
  C3: on a delay-compensation tick with at least one enabled line (and per-line arrays of
  one element per line), the delay computation returns, the centre it computes is the
  arithmetic mean of the positions of the enabled lines, disabled lines left out, and the
  relative position it stores for an enabled line is that line's position minus the
  mean.
\<close>

theorem center_is_mean_of_enabled:
  assumes "wf_lines env st" and "enabled_lines env st \<noteq> []"
  shows "\<exists>st'. delay_compensation env st = Some st'
     \<and> array_center env st = Some (mean_position env st)
     \<and> (\<forall>x<nlines env. lineEnable st ! x \<longrightarrow>
           center st' ! x = vsub (lineLocation st ! x) (mean_position env st))"
proof -
  obtain st' where "delay_compensation env st = Some st'"
    and "array_center env st = Some (mean_position env st)"
    and "\<forall>x<nlines env. center st' ! x =
           (if lineEnable st ! x then vsub (lineLocation st ! x) (mean_position env st)
            else center st ! x)"
    using delay_compensation_ok[OF assms] by blast
  then show ?thesis by auto
qed

theorem center_is_mean_of_enabled_witness:
  "wf_lines ex_env (ex_state [True, True, False])
   \<and> enabled_lines ex_env (ex_state [True, True, False]) = [0, 1]
   \<and> mean_position ex_env (ex_state [True, True, False]) = (5, 0, 0)
   \<and> array_center ex_env (ex_state [True, True, False]) = Some (5, 0, 0)
   \<and> delay_compensation ex_env (ex_state [True, True, False]) \<noteq> None
   \<and> center (the (delay_compensation ex_env (ex_state [True, True, False]))) ! 1 = (5, 0, 0)"
proof -
  have wf: "wf_lines ex_env (ex_state [True, True, False])" using ex_state_wf_lines .
  have en: "enabled_lines ex_env (ex_state [True, True, False]) = [0, 1]"
    by (simp add: enabled_lines_def eval_defs upt_rec)
  have ne: "enabled_lines ex_env (ex_state [True, True, False]) \<noteq> []" using en by simp
  have m: "mean_position ex_env (ex_state [True, True, False]) = (5, 0, 0)"
    unfolding mean_position_def en by (simp add: vsum_def eval_defs)
  have v: "lineEnable (ex_state [True, True, False]) ! 1"
      "vsub (lineLocation (ex_state [True, True, False]) ! 1) (5, 0, 0) = (5, 0, 0)"
      "1 < nlines ex_env"
    by (simp_all add: eval_defs)
  obtain st' where "delay_compensation ex_env (ex_state [True, True, False]) = Some st'"
    and "array_center ex_env (ex_state [True, True, False])
          = Some (mean_position ex_env (ex_state [True, True, False]))"
    and "\<forall>x<nlines ex_env. lineEnable (ex_state [True, True, False]) ! x \<longrightarrow>
           center st' ! x = vsub (lineLocation (ex_state [True, True, False]) ! x)
                              (mean_position ex_env (ex_state [True, True, False]))"
    using center_is_mean_of_enabled[OF wf ne] by blast
  then show ?thesis using wf en m v by simp
qed

section \<open>Delay compensation: the reference line and the tick counts\<close>

text \<open>
  C9: the reference line is meant to be an enabled line of maximal ratio. The search
  starts from line \<open>0\<close> and the maximum \<open>0\<close> and replaces them only on a strictly
  greater ratio. Here lines 1 and 2 are enabled, line 0 is not, and the direction is
  perpendicular to the array, so both ratios are \<open>0\<close>: the search ends on line \<open>0\<close>,
  which is not enabled, and the commands that pin the reference go to that line.
\<close>

theorem reference_line_not_enabled:
  "lineEnable (ex_east_west [False, True, True]) = [False, True, True]
   \<and> array_center ex_north (ex_east_west [False, True, True]) = Some (5, 0, 0)
   \<and> foldM (farest_step ex_north (ex_east_west [False, True, True]) (5, 0, 0)) [0..<3]
        (center (ex_east_west [False, True, True]), 0, 0)
       = Some ([(0, 0, 0), (- 5, 0, 0), (5, 0, 0)], 0, 0)
   \<and> ratio ex_north (ex_east_west [False, True, True]) (5, 0, 0) 1 = 0
   \<and> ratio ex_north (ex_east_west [False, True, True]) (5, 0, 0) 2 = 0
   \<and> hw (the (delay_compensation ex_north (ex_east_west [False, True, True])))
       = [Set_channel_auto 0 0 1 1, Set_channel_cross 0 0 1 1]"
  by (simp add: ex_east_west_def ex_north_def ratio_def eval_defs delay_defs upt_rec)

text \<open>
  C1: with at least two enabled lines every enabled line other than the reference is
  meant to receive a clamped tick count. Here lines 1 and 2 are enabled and line 0 is
  not, all three at the default location: the pass pins line \<open>0\<close> as the reference and
  sends nothing else, so neither enabled line receives a tick count.
\<close>

theorem enabled_lines_without_tick_count:
  "lineEnable (ex_origin [False, True, True]) = [False, True, True]
   \<and> delay_compensation ex_env (ex_origin [False, True, True]) \<noteq> None
   \<and> hw (the (delay_compensation ex_env (ex_origin [False, True, True])))
       = hw (ex_origin [False, True, True])
         @ [Set_channel_auto 0 0 1 1, Set_channel_cross 0 0 1 1]"
  by (simp add: ex_origin_def eval_defs delay_defs upt_rec)

text \<open>
  C7: with no enabled line the delay computation is meant to do nothing. The centre is
  completed by reading \<open>lineLocationNP[first]\<close> with \<open>first = -1\<close>, outside the array, so
  the computation and the pass of the reader loop that runs it have no defined result;
  with one enabled line the pass still writes \<open>delay[0]\<close> and sends the two commands that
  pin line \<open>0\<close>.
\<close>

theorem no_enabled_line_reads_out_of_bounds:
  "delay_compensation ex_env (ex_state [False, False, False]) = None
   \<and> Callback ex_env (Ready ex_packet) (ex_state [False, False, False]) = None
   \<and> delay_compensation ex_env (ex_state [False, True, False]) \<noteq> None
   \<and> hw (ex_state [False, True, False]) = []
   \<and> hw (the (delay_compensation ex_env (ex_state [False, True, False])))
       = [Set_channel_auto 0 0 1 1, Set_channel_cross 0 0 1 1]
   \<and> delay (ex_state [False, True, False]) = [7, 7, 7]
   \<and> delay (the (delay_compensation ex_env (ex_state [False, True, False]))) = [0, 7, 7]"
  by (simp add: eval_defs delay_defs cb_defs integrate_def upt_rec)

section \<open>The reader loop and the integration state\<close>

text \<open>
  C2, amended: on a ready packet the sky direction is recomputed and the delay
  compensation runs only in an active integration whose time has not run out. A pass
  outside an integration, or the pass that ends one, sends no command to the correlator
  and leaves the altitude, the azimuth, the delays and the relative positions as they
  were; a pass of an active integration with time left stores the new altitude and
  azimuth and runs the delay computation, whose first commands pin the reference line.
\<close>

theorem Callback_delay_gated:
  assumes "Callback env (Ready packet) st = Some st'"
  shows "(\<not> InIntegration st \<or> CalcTimeLeft env st \<le> 0 \<longrightarrow>
            hw st' = hw st \<and> delay st' = delay st \<and> center st' = center st
            \<and> Altitude st' = Altitude st \<and> Azimuth st' = Azimuth st)
       \<and> (InIntegration st \<and> 0 < CalcTimeLeft env st \<longrightarrow>
            Altitude st' = fst (alt_az env) \<and> Azimuth st' = snd (alt_az env)
            \<and> (\<exists>st1 farest extra.
               delay_compensation env
                 (st\<lparr>timeleft := CalcTimeLeft env st,
                     Altitude := fst (alt_az env), Azimuth := snd (alt_az env)\<rparr>) = Some st1
               \<and> hw st' = hw st1 \<and> delay st' = delay st1 \<and> center st' = center st1
               \<and> hw st' = hw st @ [Set_channel_auto farest 0 1 1, Set_channel_cross farest 0 1 1] @ extra))"
proof -
  obtain st1 where t: "totals env packet st1 = Some st'"
    and 1: "(if InIntegration st then
            (if (if CalcTimeLeft env st \<le> 0 then 0 else CalcTimeLeft env st) = 0
             then finalize env
                    (st\<lparr>timeleft := (if CalcTimeLeft env st \<le> 0 then 0 else CalcTimeLeft env st)\<rparr>)
             else integrate env packet
                    (st\<lparr>timeleft := (if CalcTimeLeft env st \<le> 0 then 0 else CalcTimeLeft env st)\<rparr>))
          else Some (st\<lparr>timeleft := (if CalcTimeLeft env st \<le> 0 then 0 else CalcTimeLeft env st)\<rparr>))
        = Some st1"
    using assms by (auto simp: Callback_def Callback_packet_def bind_eq_Some_conv)
  have tf: "hw st' = hw st1" "delay st' = delay st1" "center st' = center st1"
    "Altitude st' = Altitude st1" "Azimuth st' = Azimuth st1"
    by (subst totals_frame[OF t], simp)+
  show ?thesis
  proof (cases "InIntegration st")
    case False
    then show ?thesis using 1 tf by auto
  next
    case True
    show ?thesis
    proof (cases "CalcTimeLeft env st \<le> 0")
      case le: True
      then have "finalize env (st\<lparr>timeleft := 0\<rparr>) = Some st1" using 1 True by simp
      from finalize_frame[OF this] show ?thesis using tf le by simp
    next
      case gt: False
      then have i: "integrate env packet (st\<lparr>timeleft := CalcTimeLeft env st\<rparr>) = Some st1"
        using 1 True by simp
      obtain st2 where dc: "delay_compensation env
                 (st\<lparr>timeleft := CalcTimeLeft env st,
                     Altitude := fst (alt_az env), Azimuth := snd (alt_az env)\<rparr>) = Some st2"
        and f: "hw st1 = hw st2 \<and> delay st1 = delay st2 \<and> center st1 = center st2
                \<and> Altitude st1 = fst (alt_az env) \<and> Azimuth st1 = snd (alt_az env)"
        using integrate_frame[OF i] by auto
      obtain farest extra where
        "hw st2 = hw (st\<lparr>timeleft := CalcTimeLeft env st,
                     Altitude := fst (alt_az env), Azimuth := snd (alt_az env)\<rparr>)
            @ [Set_channel_auto farest 0 1 1, Set_channel_cross farest 0 1 1] @ extra"
        using delay_compensation_commands[OF dc] by blast
      then show ?thesis using dc f tf gt True by auto
    qed
  qed
qed

theorem Callback_delay_gated_witness:
  "\<not> InIntegration ((ex_state [True, True, True])\<lparr>InIntegration := False\<rparr>)
   \<and> Callback ex_env (Ready ex_packet) ((ex_state [True, True, True])\<lparr>InIntegration := False\<rparr>) \<noteq> None
   \<and> hw (the (Callback ex_env (Ready ex_packet) ((ex_state [True, True, True])\<lparr>InIntegration := False\<rparr>)))
       = hw (ex_state [True, True, True])
   \<and> InIntegration (ex_state [True, True, True])
   \<and> 0 < CalcTimeLeft ex_env (ex_state [True, True, True])
   \<and> Callback ex_env (Ready ex_packet) (ex_state [True, True, True]) \<noteq> None
   \<and> Altitude (the (Callback ex_env (Ready ex_packet) (ex_state [True, True, True]))) = 90
   \<and> hw (the (Callback ex_env (Ready ex_packet) (ex_state [True, True, True])))
       \<noteq> hw (ex_state [True, True, True])"
proof -
  have ne: "Callback ex_env (Ready ex_packet) ((ex_state [True, True, True])\<lparr>InIntegration := False\<rparr>) \<noteq> None"
    by (simp add: eval_defs cb_defs upt_rec)
  then obtain st' where
    e: "Callback ex_env (Ready ex_packet) ((ex_state [True, True, True])\<lparr>InIntegration := False\<rparr>) = Some st'"
    by blast
  have idle: "hw st' = hw ((ex_state [True, True, True])\<lparr>InIntegration := False\<rparr>)"
    using Callback_delay_gated[OF e] by simp
  have act: "InIntegration (ex_state [True, True, True])
      \<and> 0 < CalcTimeLeft ex_env (ex_state [True, True, True])"
    by (simp add: eval_defs CalcTimeLeft_def)
  have ne2: "Callback ex_env (Ready ex_packet) (ex_state [True, True, True]) \<noteq> None"
    by (simp add: eval_defs cb_defs delay_defs acc_defs integrate_def plot_fill_def plot_step_def
        c_div_def c_trunc_def upt_rec eval_nat_numeral)
  then obtain st2 where
    e2: "Callback ex_env (Ready ex_packet) (ex_state [True, True, True]) = Some st2"
    by blast
  have a: "alt_az ex_env = (90, 0)" by (simp add: ex_env_def)
  have "Altitude st2 = 90 \<and> hw st2 \<noteq> hw (ex_state [True, True, True])"
    using Callback_delay_gated[OF e2] act a by auto
  then show ?thesis using e idle act e2 by simp
qed

text \<open>
  The claim as stated fails: a ready packet outside an integration, with three enabled
  lines, sends no command and changes no delay, where the delay computation on the same
  array would send some.
\<close>

theorem idle_packet_issues_no_delay_command:
  "length (filter id (lineEnable ((ex_state [True, True, True])\<lparr>InIntegration := False\<rparr>))) = 3
   \<and> Callback ex_env (Ready ex_packet) ((ex_state [True, True, True])\<lparr>InIntegration := False\<rparr>) \<noteq> None
   \<and> hw (the (Callback ex_env (Ready ex_packet) ((ex_state [True, True, True])\<lparr>InIntegration := False\<rparr>))) = []
   \<and> delay (the (Callback ex_env (Ready ex_packet) ((ex_state [True, True, True])\<lparr>InIntegration := False\<rparr>)))
       = [7, 7, 7]
   \<and> hw (the (delay_compensation ex_env (ex_state [True, True, True]))) \<noteq> []
   \<and> alt_az ex_env = (90, 0)
   \<and> Altitude (the (Callback ex_env (Ready ex_packet) ((ex_state [True, True, True])\<lparr>InIntegration := False\<rparr>)))
       = 0"
  by (simp add: eval_defs cb_defs delay_defs upt_rec)

section \<open>Accumulation\<close>

text \<open>
  C4, amended: whatever lines are enabled, a correlator with lag sizes above one has one
  autocorrelation stream per line and one crosscorrelation stream per baseline; each is
  created at connection with one row, and every accumulation tick adds one row at the
  fixed width, so that after K ticks from connection every stream has K + 1 rows.
\<close>

theorem buffers_after_ticks:
  assumes la: "1 < autocorrelator_lagsize env" and lc: "1 < crosscorrelator_lagsize env"
    and pk: "list_all (wf_packet env) packets"
  shows "\<exists>st'. accumulate_ticks env packets (Handshake_streams env st) = Some st'
     \<and> length (autocorrelations_str st') = nlines env
     \<and> length (crosscorrelations_str st') = nbaselines env
     \<and> (\<forall>x<nlines env.
           sizes (autocorrelations_str st' ! x)
             = [int (autocorrelator_lagsize env), 1 + int (length packets)])
     \<and> (\<forall>x<nbaselines env.
           sizes (crosscorrelations_str st' ! x)
             = [int (crosscorrelator_lagsize env * 2 - 1), 1 + int (length packets)])"
proof -
  let ?st0 = "Handshake_streams env st"
  have b0: "wf_buffers env ?st0" using Handshake_streams_wf(1)[OF la lc] .
  obtain st' where run: "accumulate_ticks env packets ?st0 = Some st'"
    and b: "wf_buffers env st'"
    and au: "\<forall>x<nlines env.
            sizes (autocorrelations_str st' ! x) ! 1
              = sizes (autocorrelations_str ?st0 ! x) ! 1 + int (length packets)
            \<and> prefix (written (autocorrelations_str ?st0 ! x)) (written (autocorrelations_str st' ! x))"
    and cr: "\<forall>x<nbaselines env.
            sizes (crosscorrelations_str st' ! x) ! 1
              = sizes (crosscorrelations_str ?st0 ! x) ! 1 + int (length packets)
            \<and> prefix (written (crosscorrelations_str ?st0 ! x)) (written (crosscorrelations_str st' ! x))"
    using accumulate_ticks_ok[OF la lc b0 pk] by blast
  have l1: "length (autocorrelations_str st') = nlines env"
    and l2: "length (crosscorrelations_str st') = nbaselines env"
    using b by (auto simp: wf_buffers_def)
  have a: "sizes (autocorrelations_str st' ! x)
             = [int (autocorrelator_lagsize env), 1 + int (length packets)]"
    if x: "x < nlines env" for x
  proof -
    have "wf_stream (int (autocorrelator_lagsize env)) (autocorrelations_str st' ! x)"
      using b x by (auto simp: wf_buffers_def list_all_length)
    from wf_stream_sizes[OF this] show ?thesis
      using au x Handshake_streams_wf(2)[OF la lc, of st] by simp
  qed
  have c: "sizes (crosscorrelations_str st' ! x)
             = [int (crosscorrelator_lagsize env * 2 - 1), 1 + int (length packets)]"
    if x: "x < nbaselines env" for x
  proof -
    have "wf_stream (int (crosscorrelator_lagsize env * 2 - 1)) (crosscorrelations_str st' ! x)"
      using b x by (auto simp: wf_buffers_def list_all_length)
    from wf_stream_sizes[OF this] show ?thesis
      using cr x Handshake_streams_wf(3)[OF la lc, of st] by simp
  qed
  show ?thesis using run l1 l2 a c by blast
qed

theorem buffers_after_ticks_witness:
  "1 < autocorrelator_lagsize ex_env \<and> 1 < crosscorrelator_lagsize ex_env
   \<and> list_all (wf_packet ex_env) [ex_packet, ex_packet]
   \<and> accumulate_ticks ex_env [ex_packet, ex_packet] (ex_state [True, False, False]) \<noteq> None
   \<and> map sizes (autocorrelations_str
        (the (accumulate_ticks ex_env [ex_packet, ex_packet] (ex_state [True, False, False]))))
      = [[2, 3], [2, 3], [2, 3]]"
proof -
  have la: "1 < autocorrelator_lagsize ex_env" and lc: "1 < crosscorrelator_lagsize ex_env"
    and n: "nlines ex_env = 3"
    by (simp_all add: ex_env_def)
  have pk: "list_all (wf_packet ex_env) [ex_packet, ex_packet]" using ex_packet_wf by simp
  define st0 where "st0 = ex_base [True, False, False]"
  have e: "ex_state [True, False, False] = Handshake_streams ex_env st0"
    by (simp add: ex_state_def st0_def)
  obtain st' where run: "accumulate_ticks ex_env [ex_packet, ex_packet] (ex_state [True, False, False]) = Some st'"
    and l: "length (autocorrelations_str st') = nlines ex_env"
    and a: "\<forall>x<nlines ex_env. sizes (autocorrelations_str st' ! x)
             = [int (autocorrelator_lagsize ex_env), 1 + int (length [ex_packet, ex_packet])]"
    using buffers_after_ticks[OF la lc pk, of st0] e by auto
  have "map sizes (autocorrelations_str st') = [[2, 3], [2, 3], [2, 3]]"
    using l a n by (auto simp: list_eq_iff_nth_eq ex_env_def less_Suc_eq eval_nat_numeral)
  then show ?thesis using la lc pk run by simp
qed

text \<open>
  The claim as stated fails: with two of three lines enabled, one tick after connection
  leaves three autocorrelation streams and three crosscorrelation streams, each of two
  rows, where the claim has two streams, one stream and one row.
\<close>

theorem buffers_not_per_enabled_line:
  "length (filter id (lineEnable (ex_state [True, True, False]))) = 2
   \<and> accumulate ex_env ex_packet (ex_state [True, True, False]) \<noteq> None
   \<and> length (autocorrelations_str (the (accumulate ex_env ex_packet (ex_state [True, True, False])))) = 3
   \<and> length (crosscorrelations_str (the (accumulate ex_env ex_packet (ex_state [True, True, False])))) = 3
   \<and> map sizes (autocorrelations_str (the (accumulate ex_env ex_packet (ex_state [True, True, False]))))
       = [[2, 2], [2, 2], [2, 2]]
   \<and> map sizes (crosscorrelations_str (the (accumulate ex_env ex_packet (ex_state [True, True, False]))))
       = [[3, 2], [3, 2], [3, 2]]"
  by (simp add: eval_defs acc_defs upt_rec eval_nat_numeral)

text \<open>
  C5, amended: an accumulation tick writes the lag vector of the packet as a row of every
  line's autocorrelation stream and of every baseline's crosscorrelation stream, and
  each stream grows by one row, whether the line or the ends of the baseline are enabled
  or not: the enable flags are not read and not changed.
\<close>

theorem accumulate_appends_to_every_buffer:
  assumes b: "wf_buffers env st" and p: "wf_packet env packet"
    and la: "1 < autocorrelator_lagsize env" and lc: "1 < crosscorrelator_lagsize env"
  shows "\<exists>st'. accumulate env packet st = Some st'
     \<and> lineEnable st' = lineEnable st
     \<and> (\<forall>x<nlines env.
           sizes (autocorrelations_str st' ! x)
             = [int (autocorrelator_lagsize env), sizes (autocorrelations_str st ! x) ! 1 + 1]
           \<and> take (lag_size (autocorrelations packet ! x))
                (drop (nat (len (autocorrelations_str st ! x) - int (autocorrelator_lagsize env)))
                   (buf (autocorrelations_str st' ! x)))
             = map Some (map magnitude (take (lag_size (autocorrelations packet ! x))
                                          (correlations (autocorrelations packet ! x)))))
     \<and> (\<forall>x<nbaselines env.
           sizes (crosscorrelations_str st' ! x)
             = [int (crosscorrelator_lagsize env * 2 - 1), sizes (crosscorrelations_str st ! x) ! 1 + 1]
           \<and> take (lag_size (crosscorrelations packet ! x))
                (drop (nat (len (crosscorrelations_str st ! x) - int (crosscorrelator_lagsize env * 2 - 1)))
                   (buf (crosscorrelations_str st' ! x)))
             = map Some (map magnitude (take (lag_size (crosscorrelations packet ! x))
                                          (correlations (crosscorrelations packet ! x)))))"
proof -
  let ?st' = "st\<lparr>autocorrelations_str :=
                 map2 append_row (autocorrelations_str st) (autocorrelations packet),
               crosscorrelations_str :=
                 map2 append_row (crosscorrelations_str st) (crosscorrelations packet)\<rparr>"
  have run: "accumulate env packet st = Some ?st'" using accumulate_ok[OF b p la lc] .
  have a: "sizes (autocorrelations_str ?st' ! x)
             = [int (autocorrelator_lagsize env), sizes (autocorrelations_str st ! x) ! 1 + 1]
           \<and> take (lag_size (autocorrelations packet ! x))
                (drop (nat (len (autocorrelations_str st ! x) - int (autocorrelator_lagsize env)))
                   (buf (autocorrelations_str ?st' ! x)))
             = map Some (map magnitude (take (lag_size (autocorrelations packet ! x))
                                          (correlations (autocorrelations packet ! x))))"
    if x: "x < nlines env" for x
  proof -
    have ws: "wf_stream (int (autocorrelator_lagsize env)) (autocorrelations_str st ! x)"
      and wsm: "wf_sample (int (autocorrelator_lagsize env)) (autocorrelations packet ! x)"
      and l1: "x < length (autocorrelations_str st)" and l2: "x < length (autocorrelations packet)"
      using b p x by (auto simp: wf_buffers_def wf_packet_def list_all_length)
    have e: "autocorrelations_str ?st' ! x
          = append_row (autocorrelations_str st ! x) (autocorrelations packet ! x)"
      using l1 l2 by simp
    have s0: "sizes (autocorrelations_str st ! x) ! 0 = int (autocorrelator_lagsize env)"
      using ws by (simp add: wf_stream_def)
    show ?thesis
      unfolding e using append_row_row[OF ws wsm] s0 by (simp add: append_row_sizes)
  qed
  have c: "sizes (crosscorrelations_str ?st' ! x)
             = [int (crosscorrelator_lagsize env * 2 - 1), sizes (crosscorrelations_str st ! x) ! 1 + 1]
           \<and> take (lag_size (crosscorrelations packet ! x))
                (drop (nat (len (crosscorrelations_str st ! x) - int (crosscorrelator_lagsize env * 2 - 1)))
                   (buf (crosscorrelations_str ?st' ! x)))
             = map Some (map magnitude (take (lag_size (crosscorrelations packet ! x))
                                          (correlations (crosscorrelations packet ! x))))"
    if x: "x < nbaselines env" for x
  proof -
    have ws: "wf_stream (int (crosscorrelator_lagsize env * 2 - 1)) (crosscorrelations_str st ! x)"
      and wsm: "wf_sample (int (crosscorrelator_lagsize env * 2 - 1)) (crosscorrelations packet ! x)"
      and l1: "x < length (crosscorrelations_str st)" and l2: "x < length (crosscorrelations packet)"
      using b p x by (auto simp: wf_buffers_def wf_packet_def list_all_length)
    have e: "crosscorrelations_str ?st' ! x
          = append_row (crosscorrelations_str st ! x) (crosscorrelations packet ! x)"
      using l1 l2 by simp
    have s0: "sizes (crosscorrelations_str st ! x) ! 0 = int (crosscorrelator_lagsize env * 2 - 1)"
      using ws by (simp add: wf_stream_def)
    show ?thesis
      unfolding e using append_row_row[OF ws wsm] s0 by (simp add: append_row_sizes)
  qed
  have le: "lineEnable ?st' = lineEnable st" by simp
  show ?thesis using run le a c by blast
qed

theorem accumulate_appends_to_every_buffer_witness:
  "wf_buffers ex_env (ex_state [False, False, False]) \<and> wf_packet ex_env ex_packet
   \<and> 1 < autocorrelator_lagsize ex_env \<and> 1 < crosscorrelator_lagsize ex_env
   \<and> accumulate ex_env ex_packet (ex_state [False, False, False]) \<noteq> None
   \<and> sizes (autocorrelations_str (the (accumulate ex_env ex_packet (ex_state [False, False, False]))) ! 2)
       = [2, 2]
   \<and> take 2 (buf (autocorrelations_str (the (accumulate ex_env ex_packet (ex_state [False, False, False]))) ! 2))
       = [Some 5, Some 6]"
proof -
  have b: "wf_buffers ex_env (ex_state [False, False, False])" using ex_state_wf_buffers .
  have p: "wf_packet ex_env ex_packet" using ex_packet_wf .
  have la: "1 < autocorrelator_lagsize ex_env" and lc: "1 < crosscorrelator_lagsize ex_env"
    and n: "2 < nlines ex_env"
    by (simp_all add: ex_env_def)
  have v: "sizes (autocorrelations_str (ex_state [False, False, False]) ! 2) ! 1 = 1"
     "len (autocorrelations_str (ex_state [False, False, False]) ! 2) = 2"
     "int (autocorrelator_lagsize ex_env) = 2"
     "lag_size (autocorrelations ex_packet ! 2) = 2"
     "map Some (map magnitude (take 2 (correlations (autocorrelations ex_packet ! 2)))) = [Some 5, Some 6]"
    by (simp_all add: eval_defs)
  obtain st' where run: "accumulate ex_env ex_packet (ex_state [False, False, False]) = Some st'"
    and a: "\<forall>x<nlines ex_env.
           sizes (autocorrelations_str st' ! x)
             = [int (autocorrelator_lagsize ex_env),
                sizes (autocorrelations_str (ex_state [False, False, False]) ! x) ! 1 + 1]
           \<and> take (lag_size (autocorrelations ex_packet ! x))
                (drop (nat (len (autocorrelations_str (ex_state [False, False, False]) ! x)
                            - int (autocorrelator_lagsize ex_env)))
                   (buf (autocorrelations_str st' ! x)))
             = map Some (map magnitude (take (lag_size (autocorrelations ex_packet ! x))
                                          (correlations (autocorrelations ex_packet ! x))))"
    using accumulate_appends_to_every_buffer[OF b p la lc] by blast
  have "sizes (autocorrelations_str st' ! 2) = [2, 2]
      \<and> take 2 (buf (autocorrelations_str st' ! 2)) = [Some 5, Some 6]"
    using a[rule_format, OF n] v by simp
  then show ?thesis using b p la lc run by simp
qed

text \<open>
  The claim as stated fails: line 2 is disabled, and the tick writes the row
  \<open>[5, 6]\<close> into its autocorrelation stream and grows it to two rows; the stream of the
  baseline of lines 0 and 2 grows as well.
\<close>

theorem disabled_line_buffer_grows:
  "lineEnable (ex_state [True, True, False]) ! 2 = False
   \<and> accumulate ex_env ex_packet (ex_state [True, True, False]) \<noteq> None
   \<and> sizes (autocorrelations_str (ex_state [True, True, False]) ! 2) = [2, 1]
   \<and> buf (autocorrelations_str (ex_state [True, True, False]) ! 2) = [None, None]
   \<and> sizes (autocorrelations_str (the (accumulate ex_env ex_packet (ex_state [True, True, False]))) ! 2)
       = [2, 2]
   \<and> buf (autocorrelations_str (the (accumulate ex_env ex_packet (ex_state [True, True, False]))) ! 2)
       = [Some 5, Some 6, None, None]
   \<and> sizes (crosscorrelations_str (ex_state [True, True, False]) ! 1) = [3, 1]
   \<and> sizes (crosscorrelations_str (the (accumulate ex_env ex_packet (ex_state [True, True, False]))) ! 1)
       = [3, 2]"
  by (simp add: eval_defs acc_defs upt_rec eval_nat_numeral)

section \<open>Serialization\<close>

lemma replicate_numeral: "replicate (numeral k) x = x # replicate (pred_numeral k) x"
  by (simp add: numeral_eq_Suc)

text \<open>
  The encoder's verdict on a stream does not depend on the value \<open>*memsize\<close> had at the
  call, and a failed encoding leaves every output slot as it was.
\<close>

lemma createFITS_verdict: "snd (createFITS env (- 64) m s) = snd (createFITS env (- 64) 0 s)"
  by (simp add: createFITS_def)

lemma emit_blob_failed:
  "\<not> snd (createFITS env (- 64) 0 s)
   \<Longrightarrow> emit_blob env s x (m, slots) = Some (fst (createFITS env (- 64) m s), slots)"
  using createFITS_verdict [of env m s] by (simp add: emit_blob_def)

text \<open>
  The first encoding that succeeds in a loop copies outside the staging block: the block
  has \<open>0 + next_size\<close> bytes, or what earlier failures left in \<open>memsize\<close> plus
  \<open>next_size\<close>, and the copy starts at the size of the FITS file, which is at least 5760.
\<close>

lemma emit_blob_first_success:
  "snd (createFITS env (- 64) 0 s) \<Longrightarrow> emit_blob env s x (0, slots) = None"
  by (simp add: emit_blob_def createFITS_def split: if_splits)

text \<open>
  A step of the loop over the autocorrelations that has a defined result touches the
  slot and the stream of its own index only, leaves the slot alone when the encoding
  failed, and resets the stream. So in every completed pass the slot of an
  autocorrelation buffer whose encoding failed is as it was, and the buffer is reset
  like the others.
\<close>

lemma corr_blob_step_Some:
  assumes "corr_blob_step env k (m, slots, strs) = Some (m', slots', strs')"
  shows "k < length strs" and "length slots' = length slots" and "length strs' = length strs"
    and "j \<noteq> k \<Longrightarrow> slots' ! j = slots ! j" and "j \<noteq> k \<Longrightarrow> strs' ! j = strs ! j"
    and "\<not> snd (createFITS env (- 64) 0 (strs ! k)) \<Longrightarrow> slots' = slots"
    and "reset_stream (strs ! k) = Some (strs' ! k)"
  using assms createFITS_verdict [of env m "strs ! k"]
  by (auto simp add: corr_blob_step_def emit_blob_def nth_opt_def bind_eq_Some_conv
      split: if_splits prod.splits)

lemma corr_loop_Some:
  "foldM (corr_blob_step env) [0..<n] (m, slots, strs) = Some (m', slots', strs') \<Longrightarrow>
     n \<le> length strs \<and> length slots' = length slots \<and> length strs' = length strs
     \<and> (\<forall>j. n \<le> j \<longrightarrow> slots' ! j = slots ! j \<and> strs' ! j = strs ! j)
     \<and> (\<forall>j<n. \<not> snd (createFITS env (- 64) 0 (strs ! j)) \<longrightarrow> slots' ! j = slots ! j)
     \<and> (\<forall>j<n. reset_stream (strs ! j) = Some (strs' ! j))"
proof (induction n arbitrary: m' slots' strs')
  case 0
  then show ?case by simp
next
  case (Suc n)
  from Suc.prems obtain m1 slots1 strs1 where
    run: "foldM (corr_blob_step env) [0..<n] (m, slots, strs) = Some (m1, slots1, strs1)"
    and step: "corr_blob_step env n (m1, slots1, strs1) = Some (m', slots', strs')"
    by (subst (asm) foldM_upt_Suc) (auto split: option.splits)
  note ih = Suc.IH [OF run]
  note st = corr_blob_step_Some [OF step]
  have same: "strs1 ! n = strs ! n" using ih by simp
  show ?case
  proof (intro conjI allI impI)
    show "Suc n \<le> length strs" using st(1) ih by simp
    show "length slots' = length slots" using st(2) ih by simp
    show "length strs' = length strs" using st(3) ih by simp
  next
    fix j assume "Suc n \<le> j"
    then show "slots' ! j = slots ! j" using st(4) [of j] ih by simp
  next
    fix j assume "Suc n \<le> j"
    then show "strs' ! j = strs ! j" using st(5) [of j] ih by simp
  next
    fix j assume j: "j < Suc n" and f: "\<not> snd (createFITS env (- 64) 0 (strs ! j))"
    show "slots' ! j = slots ! j"
    proof (cases "j = n")
      case True
      then show ?thesis using st(6) f same ih by simp
    next
      case False
      then show ?thesis using st(4) [of j] j f ih by simp
    qed
  next
    fix j assume j: "j < Suc n"
    show "reset_stream (strs ! j) = Some (strs' ! j)"
    proof (cases "j = n")
      case True
      then show ?thesis using st(7) same by simp
    next
      case False
      then show ?thesis using st(5) [of j] j ih by simp
    qed
  qed
qed

lemma finalize_failed_autocorrelation:
  assumes fin: "finalize env st = Some st'"
    and auto: "0 < nlines env" "1 < autocorrelator_lagsize env"
    and x: "x < nlines env"
    and failed: "\<not> snd (createFITS env (- 64) 0 (autocorrelations_str st ! x))"
  shows "autocorrelationsB st' ! x = autocorrelationsB st ! x"
    and "reset_stream (autocorrelations_str st ! x) = Some (autocorrelations_str st' ! x)"
proof -
  from fin auto obtain m aB aS where
    run: "foldM (corr_blob_step env) [0..<nlines env] (0, autocorrelationsB st, autocorrelations_str st)
            = Some (m, aB, aS)"
    and out: "autocorrelationsB st' = aB" "autocorrelations_str st' = aS"
    by (auto simp add: finalize_def bind_eq_Some_conv split: prod.splits)
  from corr_loop_Some [OF run] x failed out
  show "autocorrelationsB st' ! x = autocorrelationsB st ! x"
    and "reset_stream (autocorrelations_str st ! x) = Some (autocorrelations_str st' ! x)"
    by simp_all
qed

text \<open>
  C8: when the encoder fails for a buffer, that buffer's slot is meant to stay unset and
  the buffers that follow are meant to be serialized all the same. The loop over the
  crosscorrelations runs over the pairs \<open>(x, y)\<close> of lines and indexes the streams and
  the slots with the line \<open>x\<close>, where the accumulation indexes them with the running
  baseline index. Here, one tick after connection, the encoder fails for every image of
  more than one row, so for all three crosscorrelation buffers, as it does for the plot
  and the three autocorrelation buffers, whose slots stay unset. The pair \<open>(0, 1)\<close> fails
  on stream \<open>0\<close> and resets it; the pair \<open>(0, 2)\<close> then encodes the one row of zeros of
  stream \<open>0\<close> again and sets slot \<open>0\<close>, the slot of a buffer whose encoding failed; the
  pair \<open>(1, 2)\<close> fails on stream \<open>1\<close>; stream \<open>2\<close> is never handed to the encoder and
  keeps its rows. When the first encoding of a loop succeeds instead, with an encoder
  that never fails or fails for the second autocorrelation buffer only, the copy into
  the staging block is out of bounds and the step has no defined result.
\<close>

theorem failed_crosscorrelation_slot_is_set:
  "map sizes (crosscorrelations_str ex_accumulated) = [[3, 2], [3, 2], [3, 2]]
   \<and> crosscorrelationsB ex_accumulated = [ex_slot, ex_slot, ex_slot]
   \<and> map (\<lambda>s. snd (createFITS ex_env_rows (- 64) 0 s)) (crosscorrelations_str ex_accumulated)
       = [False, False, False]
   \<and> finalize ex_env_rows ex_accumulated \<noteq> None
   \<and> plotB (the (finalize ex_env_rows ex_accumulated)) = [ex_slot]
   \<and> autocorrelationsB (the (finalize ex_env_rows ex_accumulated)) = [ex_slot, ex_slot, ex_slot]
   \<and> map sizes (autocorrelations_str (the (finalize ex_env_rows ex_accumulated)))
       = [[2, 1], [2, 1], [2, 1]]
   \<and> crosscorrelationsB (the (finalize ex_env_rows ex_accumulated))
       = [\<lparr>blob = Some 5760, bloblen = 24\<rparr>, ex_slot, ex_slot]
   \<and> map sizes (crosscorrelations_str (the (finalize ex_env_rows ex_accumulated)))
       = [[3, 1], [3, 1], [3, 2]]
   \<and> finalize ex_env ex_accumulated = None
   \<and> map (\<lambda>s. snd (createFITS ex_env_fail (- 64) 0 s)) (autocorrelations_str ex_accumulated)
       = [True, False, True]
   \<and> foldM (corr_blob_step ex_env_fail) [0..<3]
        (0, autocorrelationsB ex_accumulated, autocorrelations_str ex_accumulated) = None
   \<and> finalize ex_env_fail ex_accumulated = None"
  by (simp add: ex_accumulated_def ex_env_rows_def ex_env_fail_def fin_defs eval_defs acc_defs
      pairs_def upt_rec replicate_numeral)

section \<open>Aborting an integration\<close>

text \<open>Aborting answers true in every state and writes the integrating flag only.\<close>

lemma AbortIntegration_clears_flag: "AbortIntegration st = (True, st\<lparr>InIntegration := False\<rparr>)"
  by (simp add: AbortIntegration_def)

text \<open>
  C10: aborting returns true and only clears the integrating flag, and the rows appended
  before the abort are meant to be part of what the next completed integration
  serializes. Here an integration is aborted after one pass of the reader loop and
  started again; the pass that follows appends a second row after the first, and the
  pass after the time has run out ends the integration. With an encoder that never
  fails that last pass has no defined result: the first copy into the staging block is
  out of bounds. With an encoder that fails on the first image of each loop the pass
  completes, but the loop over the crosscorrelations indexes streams and slots with the
  line \<open>x\<close> of the pair \<open>(x, y)\<close>: slot \<open>0\<close> ends on the one row of zeros of the reset
  stream \<open>0\<close>, slot \<open>1\<close> holds stream \<open>1\<close>, and stream \<open>2\<close>, which the encoder would
  accept, is never serialized: its slot stays unset and it keeps both rows, the one
  from before the abort included, after the integration has completed.
\<close>

theorem aborted_rows_not_serialized:
  "InIntegration ex_cycle1
   \<and> map written (crosscorrelations_str ex_cycle1)
       = [[Some 1, Some 2, Some 3], [Some 4, Some 5, Some 6], [Some 7, Some 8, Some 9]]
   \<and> AbortIntegration ex_cycle1 = (True, ex_cycle1\<lparr>InIntegration := False\<rparr>)
   \<and> AbortIntegration (snd (AbortIntegration ex_cycle1)) = (True, snd (AbortIntegration ex_cycle1))
   \<and> StartIntegration ex_env 10 (snd (AbortIntegration ex_cycle1)) = (True, ex_restart)
   \<and> Callback ex_env (Ready ex_packet) ex_restart \<noteq> None
   \<and> InIntegration ex_cycle2
   \<and> map written (crosscorrelations_str ex_cycle2)
       = [[Some 1, Some 2, Some 3, Some 1, Some 2, Some 3],
          [Some 4, Some 5, Some 6, Some 4, Some 5, Some 6],
          [Some 7, Some 8, Some 9, Some 7, Some 8, Some 9]]
   \<and> crosscorrelationsB ex_cycle2 = [ex_slot, ex_slot, ex_slot]
   \<and> Callback ex_late (Ready ex_packet) ex_cycle2 = None
   \<and> map (\<lambda>s. snd (createFITS ex_late_first (- 64) 0 s)) (crosscorrelations_str ex_cycle2)
       = [False, True, True]
   \<and> Callback ex_late_first (Ready ex_packet) ex_cycle2 \<noteq> None
   \<and> \<not> InIntegration (the (Callback ex_late_first (Ready ex_packet) ex_cycle2))
   \<and> crosscorrelationsB (the (Callback ex_late_first (Ready ex_packet) ex_cycle2))
       = [\<lparr>blob = Some 5760, bloblen = 24\<rparr>, \<lparr>blob = Some 5760, bloblen = 72\<rparr>, ex_slot]
   \<and> map sizes (crosscorrelations_str (the (Callback ex_late_first (Ready ex_packet) ex_cycle2)))
       = [[3, 1], [3, 1], [3, 3]]
   \<and> map written (crosscorrelations_str (the (Callback ex_late_first (Ready ex_packet) ex_cycle2)))
       = [[], [], [Some 7, Some 8, Some 9, Some 7, Some 8, Some 9]]"
  by (simp add: ex_late_first_def ex_late_def ex_cycle2_def ex_restart_def ex_cycle1_def written_def
      AbortIntegration_def StartIntegration_def fin_defs pairs_def eval_defs pass_defs upt_rec
      replicate_numeral)

end
